theory Spec2Isabelle
  imports Main "HOL-Library.Sublist"
begin

section \<open>JavaScript values and the runtime functions the program calls\<close>

text \<open>
  The interceptor and the OAuth controller are TypeScript. This section fixes how their
  runtime is read: JSON values as a datatype, \<open>undefined\<close> as \<open>None\<close>, objects as
  association lists in insertion order, \<open>Map\<close> as an association list compared with
  SameValueZero, and text as a list of 8-bit characters: its UTF-8 bytes. The stream decodes
  what it reads with \<open>TextDecoder\<close> in streaming mode, which carries an incomplete sequence
  over to the next chunk, and encodes what it writes with \<open>TextEncoder\<close>. On valid UTF-8
  that starts with no byte-order mark the two undo each other, and a text and its bytes
  determine each other; the replacement character the decoder puts for a malformed
  sequence, and its dropping of a leading byte-order mark, are not modelled. The byte
  \<open>0x0A\<close> never occurs inside a multi-byte sequence, so lines are cut at it, and the white
  space and the line terminators of the language are recognised by their encodings.
  Numbers are the integers; JavaScript's doubles are not modelled.
\<close>

datatype json =
    JNull
  | JBool bool
  | JNum int
  | JStr string
  | JArr "json list"
  | JObj "(string \<times> json) list"

text \<open>A JavaScript value that may be \<open>undefined\<close>.\<close>

type_synonym jsval = "json option"

datatype js_error = TypeError

text \<open>Truthiness, as \<open>if (v)\<close>, \<open>!v\<close> and \<open>a || b\<close> test it.\<close>

fun truthy :: "jsval \<Rightarrow> bool" where
  "truthy None = False"
| "truthy (Some JNull) = False"
| "truthy (Some (JBool b)) = b"
| "truthy (Some (JNum n)) = (n \<noteq> 0)"
| "truthy (Some (JStr s)) = (s \<noteq> [])"
| "truthy (Some (JArr xs)) = True"
| "truthy (Some (JObj kvs)) = True"

text \<open>Truthiness of a value typed \<open>string | undefined\<close> or \<open>string | null\<close>.\<close>

fun truthyStr :: "string option \<Rightarrow> bool" where
  "truthyStr None = False"
| "truthyStr (Some s) = (s \<noteq> [])"

text \<open>
  \<open>o.k\<close> for the property names the program reads (none of them is inherited from a
  prototype): reading a property of \<open>null\<close> throws, of a primitive or an array gives
  \<open>undefined\<close>.
\<close>

fun getProp :: "json \<Rightarrow> string \<Rightarrow> js_error + jsval" where
  "getProp JNull k = Inl TypeError"
| "getProp (JObj kvs) k = Inr (map_of kvs k)"
| "getProp (JBool b) k = Inr None"
| "getProp (JNum n) k = Inr None"
| "getProp (JStr s) k = Inr None"
| "getProp (JArr xs) k = Inr None"

text \<open>\<open>o?.k\<close>: \<open>undefined\<close> when \<open>o\<close> is \<open>undefined\<close> or \<open>null\<close>.\<close>

fun getPropOpt :: "jsval \<Rightarrow> string \<Rightarrow> jsval" where
  "getPropOpt None k = None"
| "getPropOpt (Some JNull) k = None"
| "getPropOpt (Some (JObj kvs)) k = map_of kvs k"
| "getPropOpt (Some (JBool b)) k = None"
| "getPropOpt (Some (JNum n)) k = None"
| "getPropOpt (Some (JStr s)) k = None"
| "getPropOpt (Some (JArr xs)) k = None"

subsection \<open>Objects as association lists\<close>

text \<open>
  The own properties of an object, in insertion order. \<open>obj_has\<close> tests for an own
  property; it is \<open>k in o\<close> for the two names the program tests, \<open>_intent\<close> and
  \<open>_displayName\<close>, which \<open>Object.prototype\<close> does not have. \<open>obj_get\<close> reads an own property,
  \<open>obj_set\<close> defines one (an existing key keeps its place, a new one is appended; this is
  what \<open>JSON.parse\<close> does for every member it reads, and what \<open>o[k] = v\<close> does for a key
  other than \<open>__proto__\<close>), and \<open>obj_delete\<close> is \<open>delete o[k]\<close>.
\<close>

definition obj_has :: "(string \<times> 'v) list \<Rightarrow> string \<Rightarrow> bool" where
  "obj_has kvs k = (k \<in> set (map fst kvs))"

definition obj_get :: "(string \<times> 'v) list \<Rightarrow> string \<Rightarrow> 'v option" where
  "obj_get kvs k = map_of kvs k"

fun obj_set :: "(string \<times> 'v) list \<Rightarrow> string \<Rightarrow> 'v \<Rightarrow> (string \<times> 'v) list" where
  "obj_set [] k v = [(k, v)]"
| "obj_set ((k', v') # kvs) k v =
     (if k' = k then (k, v) # kvs else (k', v') # obj_set kvs k v)"

definition obj_delete :: "(string \<times> 'v) list \<Rightarrow> string \<Rightarrow> (string \<times> 'v) list" where
  "obj_delete kvs k = filter (\<lambda>kv. fst kv \<noteq> k) kvs"

text \<open>
  An object that \<open>JSON.parse\<close> or \<open>{}\<close> created inherits from \<open>Object.prototype\<close>, whose
  properties are the twelve names below. Reading \<open>o[k]\<close> under a key that is not known in
  advance gives the own property \<open>k\<close> if \<open>o\<close> has one; otherwise what \<open>Object.prototype\<close>
  has under that name (a built-in function, or for \<open>__proto__\<close> the prototype itself);
  otherwise \<open>undefined\<close>.
\<close>

definition objectPrototypeKeys :: "string list" where
  "objectPrototypeKeys =
     [''constructor'', ''__defineGetter__'', ''__defineSetter__'', ''hasOwnProperty'',
      ''__lookupGetter__'', ''__lookupSetter__'', ''isPrototypeOf'', ''propertyIsEnumerable'',
      ''toString'', ''valueOf'', ''__proto__'', ''toLocaleString'']"

datatype 'v js_read = Stored 'v | PrototypeMember string | Undefined

definition obj_read :: "(string \<times> 'v) list \<Rightarrow> string \<Rightarrow> 'v js_read" where
  "obj_read kvs k =
     (case map_of kvs k of
        Some v \<Rightarrow> Stored v
      | None \<Rightarrow> if k \<in> set objectPrototypeKeys then PrototypeMember k else Undefined)"

text \<open>
  \<open>o[k] = v\<close> for a value \<open>v\<close> that is an object. Under the key \<open>__proto__\<close>, unless \<open>o\<close> owns
  a property of that name (as an object does that \<open>JSON.parse\<close> read from a text with that
  key), the assignment runs the setter of \<open>Object.prototype\<close>: it makes \<open>v\<close> the prototype of
  \<open>o\<close> and gives \<open>o\<close> no property. The prototype is not part of the model: the objects
  assigned to are only ever serialised, which writes own properties alone.
\<close>

definition obj_assign :: "(string \<times> 'v) list \<Rightarrow> string \<Rightarrow> 'v \<Rightarrow> (string \<times> 'v) list" where
  "obj_assign kvs k v = (if k = ''__proto__'' \<and> \<not> obj_has kvs k then kvs else obj_set kvs k v)"

subsection \<open>\<open>Map\<close> with SameValueZero keys\<close>

text \<open>
  Primitives are equal by value. An object or an array is equal only to itself, and every
  key the program uses comes from a fresh \<open>JSON.parse\<close>, so two such keys never match.
\<close>

fun sameValueZero :: "jsval \<Rightarrow> jsval \<Rightarrow> bool" where
  "sameValueZero None None = True"
| "sameValueZero (Some JNull) (Some JNull) = True"
| "sameValueZero (Some (JBool a)) (Some (JBool b)) = (a = b)"
| "sameValueZero (Some (JNum a)) (Some (JNum b)) = (a = b)"
| "sameValueZero (Some (JStr a)) (Some (JStr b)) = (a = b)"
| "sameValueZero a b = False"

fun Map_get :: "(jsval \<times> 'v) list \<Rightarrow> jsval \<Rightarrow> 'v option" where
  "Map_get [] k = None"
| "Map_get ((k', v) # m) k = (if sameValueZero k' k then Some v else Map_get m k)"


fun Map_set :: "(jsval \<times> 'v) list \<Rightarrow> jsval \<Rightarrow> 'v \<Rightarrow> (jsval \<times> 'v) list" where
  "Map_set [] k v = [(k, v)]"
| "Map_set ((k', v') # m) k v =
     (if sameValueZero k' k then (k', v) # m else (k', v') # Map_set m k v)"

fun Map_delete :: "(jsval \<times> 'v) list \<Rightarrow> jsval \<Rightarrow> (jsval \<times> 'v) list" where
  "Map_delete [] k = []"
| "Map_delete ((k', v') # m) k =
     (if sameValueZero k' k then m else (k', v') # Map_delete m k)"

subsection \<open>Strings\<close>

text \<open>\<open>String.prototype.includes\<close>; \<open>startsWith\<close> is \<^const>\<open>prefix\<close>.\<close>

fun str_includes :: "string \<Rightarrow> string \<Rightarrow> bool" where
  "str_includes [] p = (p = [])"
| "str_includes (c # cs) p = (prefix p (c # cs) \<or> str_includes cs p)"

text \<open>The line terminators, which \<open>.\<close> does not match: line feed, carriage return, U+2028
  and U+2029, each as its UTF-8 encoding.\<close>

definition lineTerminators :: "string list" where
  "lineTerminators =
     [[CHR 0x0A], [CHR 0x0D], [CHR 0xE2, CHR 0x80, CHR 0xA8], [CHR 0xE2, CHR 0x80, CHR 0xA9]]"

text \<open>
  The white space that \<open>trim()\<close> strips and \<open>\s\<close> matches: space, tab, vertical tab, form
  feed, U+00A0, U+1680, U+2000 to U+200A, U+202F, U+205F, U+3000, U+FEFF, and the line
  terminators. No encoding in the list is the beginning or the end of another, and each
  starts with a byte that only begins a character, so a text starts (or ends) with one of
  the encodings exactly when its first (or last) character is that white space.
\<close>

definition whiteSpace :: "string list" where
  "whiteSpace =
     [[CHR 0x20], [CHR 0x09], [CHR 0x0B], [CHR 0x0C],
      [CHR 0xC2, CHR 0xA0], [CHR 0xE1, CHR 0x9A, CHR 0x80],
      [CHR 0xE2, CHR 0x80, CHR 0x80], [CHR 0xE2, CHR 0x80, CHR 0x81],
      [CHR 0xE2, CHR 0x80, CHR 0x82], [CHR 0xE2, CHR 0x80, CHR 0x83],
      [CHR 0xE2, CHR 0x80, CHR 0x84], [CHR 0xE2, CHR 0x80, CHR 0x85],
      [CHR 0xE2, CHR 0x80, CHR 0x86], [CHR 0xE2, CHR 0x80, CHR 0x87],
      [CHR 0xE2, CHR 0x80, CHR 0x88], [CHR 0xE2, CHR 0x80, CHR 0x89],
      [CHR 0xE2, CHR 0x80, CHR 0x8A], [CHR 0xE2, CHR 0x80, CHR 0xAF],
      [CHR 0xE2, CHR 0x81, CHR 0x9F], [CHR 0xE3, CHR 0x80, CHR 0x80],
      [CHR 0xEF, CHR 0xBB, CHR 0xBF]] @ lineTerminators"

text \<open>The sequence of a list that a text starts with, and the text without all such
  sequences at its start.\<close>

definition leadingOf :: "string list \<Rightarrow> string \<Rightarrow> string option" where
  "leadingOf seqs s = find (\<lambda>q. q \<noteq> [] \<and> prefix q s) seqs"

function dropLeading :: "string list \<Rightarrow> string \<Rightarrow> string" where
  "dropLeading seqs s =
     (case leadingOf seqs s of
        None \<Rightarrow> s
      | Some q \<Rightarrow> dropLeading seqs (drop (length q) s))"
  by pat_completeness auto
termination
  by (relation "measure (\<lambda>(seqs, s). length s)")
     (auto simp: leadingOf_def find_Some_iff prefix_def)

declare dropLeading.simps [simp del]

text \<open>\<open>String.prototype.trim\<close>: the white space at the start is dropped, then the white
  space at the end, read backwards.\<close>

definition trim :: "string \<Rightarrow> string" where
  "trim s = rev (dropLeading (map rev whiteSpace) (rev (dropLeading whiteSpace s)))"

text \<open>Whether a text holds a line terminator.\<close>

definition hasLineTerminator :: "string \<Rightarrow> bool" where
  "hasLineTerminator s = list_ex (str_includes s) lineTerminators"



text \<open>\<open>text.split('\n')\<close>: never empty; the last element is what follows the last line feed.\<close>

fun splitLines :: "string \<Rightarrow> string list" where
  "splitLines [] = [[]]"
| "splitLines (c # cs) =
     (if c = CHR 0x0A then [] # splitLines cs
      else (case splitLines cs of [] \<Rightarrow> [[c]] | l # ls \<Rightarrow> (c # l) # ls))"

text \<open>Decimal digits of a natural number, and \<open>String(n)\<close> for an integer \<open>n\<close>.\<close>

fun show_nat :: "nat \<Rightarrow> string" where
  "show_nat n =
     (if n < 10 then [''0123456789'' ! n]
      else show_nat (n div 10) @ [''0123456789'' ! (n mod 10)])"

declare show_nat.simps [simp del]

definition show_int :: "int \<Rightarrow> string" where
  "show_int i = (if i < 0 then CHR ''-'' # show_nat (nat (- i)) else show_nat (nat i))"

text \<open>
  \<open>String(v)\<close>, which \<open>s += v\<close> and a property key \<open>o[v]\<close> apply to a value that is not a
  string. In an array, \<open>null\<close> elements print as the empty string.
\<close>

fun joinWith :: "string \<Rightarrow> string list \<Rightarrow> string" where
  "joinWith sep [] = []"
| "joinWith sep [x] = x"
| "joinWith sep (x # y # ys) = x @ sep @ joinWith sep (y # ys)"

fun js_toString :: "json \<Rightarrow> string" where
  "js_toString JNull = ''null''"
| "js_toString (JBool b) = (if b then ''true'' else ''false'')"
| "js_toString (JNum n) = show_int n"
| "js_toString (JStr s) = s"
| "js_toString (JArr xs) =
     joinWith '','' (map (\<lambda>x. if x = JNull then [] else js_toString x) xs)"
| "js_toString (JObj kvs) = ''[object Object]''"

subsection \<open>\<open>JSON.stringify\<close> and \<open>JSON.parse\<close>\<close>

text \<open>
  The two built-ins are parameters of the model: every function below that calls them
  takes a \<open>runtime\<close>, and the general theorems hold for every runtime. The concrete
  scenarios run on \<open>jsRuntime\<close>, a serialiser and a recursive-descent parser that agree
  with the built-ins on the texts of those scenarios: JSON whose numbers are integer
  literals, whose \<open>\u\<close> escapes are ASCII and whose objects have no integer-like key (which
  \<open>JSON.stringify\<close> lists before the others). Beyond such texts \<open>jsRuntime\<close> is not the
  built-in pair, and no general theorem depends on it.
\<close>

record runtime =
  JSON_parse :: "string \<Rightarrow> json option"
  JSON_stringify :: "json \<Rightarrow> string"

definition hexDigit :: "nat \<Rightarrow> char" where
  "hexDigit d = ''0123456789abcdef'' ! d"

definition quoteChar :: "char \<Rightarrow> string" where
  "quoteChar c =
     (if c = CHR 0x22 then [CHR 0x5C, CHR 0x22]
      else if c = CHR 0x5C then [CHR 0x5C, CHR 0x5C]
      else if c = CHR 0x08 then [CHR 0x5C, CHR ''b'']
      else if c = CHR 0x0C then [CHR 0x5C, CHR ''f'']
      else if c = CHR 0x0A then [CHR 0x5C, CHR ''n'']
      else if c = CHR 0x0D then [CHR 0x5C, CHR ''r'']
      else if c = CHR 0x09 then [CHR 0x5C, CHR ''t'']
      else if (of_char c :: nat) < 32
        then [CHR 0x5C, CHR ''u'', CHR ''0'', CHR ''0'',
              hexDigit (of_char c div 16), hexDigit (of_char c mod 16)]
      else [c])"

definition quoteString :: "string \<Rightarrow> string" where
  "quoteString s = [CHR 0x22] @ concat (map quoteChar s) @ [CHR 0x22]"

fun stringify :: "json \<Rightarrow> string" where
  "stringify JNull = ''null''"
| "stringify (JBool b) = (if b then ''true'' else ''false'')"
| "stringify (JNum n) = show_int n"
| "stringify (JStr s) = quoteString s"
| "stringify (JArr xs) = ''['' @ joinWith '','' (map stringify xs) @ '']''"
| "stringify (JObj kvs) =
     ''{'' @ joinWith '','' (map (\<lambda>kv. quoteString (fst kv) @ '':'' @ stringify (snd kv)) kvs)
       @ ''}''"

definition isJsonWs :: "char \<Rightarrow> bool" where
  "isJsonWs c = (c = CHR 0x20 \<or> c = CHR 0x09 \<or> c = CHR 0x0A \<or> c = CHR 0x0D)"

definition skipWs :: "string \<Rightarrow> string" where
  "skipWs s = dropWhile isJsonWs s"

definition isDigit :: "char \<Rightarrow> bool" where
  "isDigit c = ((48::nat) \<le> of_char c \<and> (of_char c :: nat) \<le> 57)"

definition hexVal :: "char \<Rightarrow> nat option" where
  "hexVal c =
     (let n = (of_char c :: nat) in
      if 48 \<le> n \<and> n \<le> 57 then Some (n - 48)
      else if 97 \<le> n \<and> n \<le> 102 then Some (n - 87)
      else if 65 \<le> n \<and> n \<le> 70 then Some (n - 55)
      else None)"

text \<open>The body of a string literal after its opening quote: the string and the rest.\<close>

fun parseStr :: "string \<Rightarrow> string \<Rightarrow> (string \<times> string) option" where
  "parseStr acc [] = None"
| "parseStr acc [c] = (if c = CHR 0x22 then Some (rev acc, []) else None)"
| "parseStr acc (c # e # cs) =
     (if c = CHR 0x22 then Some (rev acc, e # cs)
      else if c = CHR 0x5C then
        (if e = CHR 0x22 then parseStr (CHR 0x22 # acc) cs
         else if e = CHR 0x5C then parseStr (CHR 0x5C # acc) cs
         else if e = CHR ''/'' then parseStr (CHR ''/'' # acc) cs
         else if e = CHR ''b'' then parseStr (CHR 0x08 # acc) cs
         else if e = CHR ''f'' then parseStr (CHR 0x0C # acc) cs
         else if e = CHR ''n'' then parseStr (CHR 0x0A # acc) cs
         else if e = CHR ''r'' then parseStr (CHR 0x0D # acc) cs
         else if e = CHR ''t'' then parseStr (CHR 0x09 # acc) cs
         else if e = CHR ''u'' then
           (case cs of
              h1 # h2 # h3 # h4 # rest \<Rightarrow>
                (case (hexVal h1, hexVal h2, hexVal h3, hexVal h4) of
                   (Some a, Some b, Some c', Some d) \<Rightarrow>
                     (if a = 0 \<and> b = 0 \<and> c' < 8
                      then parseStr (char_of (16 * c' + d) # acc) rest
                      else None)
                 | _ \<Rightarrow> None)
            | _ \<Rightarrow> None)
         else None)
      else if (of_char c :: nat) < 32 then None
      else parseStr (c # acc) (e # cs))"

fun parseDigits :: "int \<Rightarrow> string \<Rightarrow> int \<times> string" where
  "parseDigits acc [] = (acc, [])"
| "parseDigits acc (c # cs) =
     (if isDigit c then parseDigits (10 * acc + (of_char c - 48)) cs else (acc, c # cs))"

text \<open>An integer literal \<open>-?(0|[1-9][0-9]*)\<close>; a fraction or an exponent is refused.\<close>

definition parseNumber :: "string \<Rightarrow> (json \<times> string) option" where
  "parseNumber s =
     (let neg = (s \<noteq> [] \<and> hd s = CHR ''-'');
          body = (if neg then tl s else s)
      in case body of
           [] \<Rightarrow> None
         | d # ds \<Rightarrow>
            if \<not> isDigit d then None
            else
              (let (n, rest) = (if d = CHR ''0'' then (0, ds) else parseDigits 0 (d # ds))
               in if rest \<noteq> [] \<and> (hd rest = CHR ''.'' \<or> hd rest = CHR ''e'' \<or> hd rest = CHR ''E'')
                  then None
                  else Some (JNum (if neg then - n else n), rest)))"

text \<open>Recursive descent with fuel: every call uses one unit, and a text of \<open>n\<close> characters
  needs fewer than \<open>n + 1\<close>.\<close>

fun parseValue :: "nat \<Rightarrow> string \<Rightarrow> (json \<times> string) option"
  and parseElements :: "nat \<Rightarrow> json list \<Rightarrow> string \<Rightarrow> (json \<times> string) option"
  and parseMembers :: "nat \<Rightarrow> (string \<times> json) list \<Rightarrow> string \<Rightarrow> (json \<times> string) option"
where
  "parseValue 0 s = None"
| "parseValue (Suc n) s =
     (case skipWs s of
        [] \<Rightarrow> None
      | c # cs \<Rightarrow>
          if c = CHR 0x22 then
            (case parseStr [] cs of None \<Rightarrow> None | Some (str, r) \<Rightarrow> Some (JStr str, r))
          else if c = CHR ''{'' then
            (case skipWs cs of
               [] \<Rightarrow> None
             | d # r \<Rightarrow> if d = CHR ''}'' then Some (JObj [], r) else parseMembers n [] cs)
          else if c = CHR ''['' then
            (case skipWs cs of
               [] \<Rightarrow> None
             | d # r \<Rightarrow> if d = CHR '']'' then Some (JArr [], r) else parseElements n [] cs)
          else if prefix ''true'' (c # cs) then Some (JBool True, drop 4 (c # cs))
          else if prefix ''false'' (c # cs) then Some (JBool False, drop 5 (c # cs))
          else if prefix ''null'' (c # cs) then Some (JNull, drop 4 (c # cs))
          else parseNumber (c # cs))"
| "parseElements 0 acc s = None"
| "parseElements (Suc n) acc s =
     (case parseValue n s of
        None \<Rightarrow> None
      | Some (v, r) \<Rightarrow>
          (case skipWs r of
             [] \<Rightarrow> None
           | d # r' \<Rightarrow>
               if d = CHR '','' then parseElements n (acc @ [v]) r'
               else if d = CHR '']'' then Some (JArr (acc @ [v]), r')
               else None))"
| "parseMembers 0 acc s = None"
| "parseMembers (Suc n) acc s =
     (case skipWs s of
        [] \<Rightarrow> None
      | q # r \<Rightarrow>
          if q \<noteq> CHR 0x22 then None
          else
            (case parseStr [] r of
               None \<Rightarrow> None
             | Some (k, r1) \<Rightarrow>
                 (case skipWs r1 of
                    [] \<Rightarrow> None
                  | colon # r2 \<Rightarrow>
                      if colon \<noteq> CHR '':'' then None
                      else
                        (case parseValue n r2 of
                           None \<Rightarrow> None
                         | Some (v, r3) \<Rightarrow>
                             (case skipWs r3 of
                                [] \<Rightarrow> None
                              | d # r4 \<Rightarrow>
                                  if d = CHR '','' then parseMembers n (obj_set acc k v) r4
                                  else if d = CHR ''}'' then Some (JObj (obj_set acc k v), r4)
                                  else None)))))"

definition parseJson :: "string \<Rightarrow> json option" where
  "parseJson s =
     (case parseValue (Suc (length s)) s of
        None \<Rightarrow> None
      | Some (v, r) \<Rightarrow> if skipWs r = [] then Some v else None)"

definition jsRuntime :: runtime where
  "jsRuntime = \<lparr> JSON_parse = parseJson, JSON_stringify = stringify \<rparr>"

section \<open>The environment of a call\<close>

text \<open>
  What a call reads from outside the program: the clock (\<open>Date.now()\<close>), whether the
  file operations it attempts succeed, and the environment variable
  \<open>ANTHROPIC_BASE_URL\<close>. Debug logging is compiled out (\<open>INTERCEPTOR_LOGGING_ENABLED\<close> is
  \<open>false\<close>), so \<open>debugLog\<close> does nothing and is left out.
\<close>

record env =
  now :: int
  writeOk :: bool
  renameOk :: bool
  unlinkOk :: bool
  ANTHROPIC_BASE_URL :: "string option"

section \<open>The state of a process, and the disk\<close>

record LastApiError =
  status :: int
  statusText :: string
  message :: json
  err_timestamp :: int

text \<open>The file \<open>api-error.json\<close>: missing, holding an error, or present but not readable as
  JSON.\<close>

datatype error_file = NoErrorFile | ErrorFile LastApiError | CorruptErrorFile

record ToolMetadata =
  intent :: "string option"
  displayName :: "string option"
  timestamp :: int

text \<open>
  The module state of one process (\<open>_sessionDir\<close>, \<open>_metadataMap\<close>, \<open>_fileCache\<close>) and the
  disk it shares with other processes. A metadata file is held the way \<open>JSON.parse\<close> returns
  what \<open>JSON.stringify\<close> wrote: a record from tool-use id to metadata, a field that was
  \<open>undefined\<close> being absent. The disk maps a path to the content of the file there; a path
  it does not hold is a file that is missing, unreadable or not JSON, and
  \<open>readMetadataFile\<close> reads all three as the empty record.
\<close>

record world =
  sessionDir :: "string option"
  metadataMap :: "(jsval \<times> ToolMetadata) list"
  fileCache :: "(string \<times> ToolMetadata) list option"
  files :: "(string \<times> (string \<times> ToolMetadata) list) list"
  errorFile :: error_file

section \<open>The last API error: a single-slot file\<close>

definition MAX_ERROR_AGE_MS :: int where
  "MAX_ERROR_AGE_MS = 5 * 60 * 1000"

definition getStoredError :: "env \<Rightarrow> world \<Rightarrow> LastApiError option \<times> world" where
  "getStoredError e w =
     (case errorFile w of
        NoErrorFile \<Rightarrow> (None, w)
      | CorruptErrorFile \<Rightarrow> (None, w)
      | ErrorFile err \<Rightarrow>
          (Some err, if unlinkOk e then w\<lparr>errorFile := NoErrorFile\<rparr> else w))"

definition setStoredError :: "env \<Rightarrow> world \<Rightarrow> LastApiError option \<Rightarrow> world" where
  "setStoredError e w error =
     (case error of
        Some err \<Rightarrow> if writeOk e then w\<lparr>errorFile := ErrorFile err\<rparr> else w
      | None \<Rightarrow> if unlinkOk e then w\<lparr>errorFile := NoErrorFile\<rparr> else w)"

definition getLastApiError :: "env \<Rightarrow> world \<Rightarrow> LastApiError option \<times> world" where
  "getLastApiError e w =
     (case getStoredError e w of
        (Some err, w') \<Rightarrow>
          (let age = now e - err_timestamp err
           in if age < MAX_ERROR_AGE_MS then (Some err, w') else (None, w'))
      | (None, w') \<Rightarrow> (None, w'))"

definition clearLastApiError :: "env \<Rightarrow> world \<Rightarrow> world" where
  "clearLastApiError e w = setStoredError e w None"

section \<open>The tool metadata store\<close>

text \<open>\<open>join(dir, name)\<close>, without the normalisation of the path.\<close>

definition path_join :: "string \<Rightarrow> string \<Rightarrow> string" where
  "path_join dir name = dir @ ''/'' @ name"

definition getMetadataFilePath :: "world \<Rightarrow> string option" where
  "getMetadataFilePath w =
     (if truthyStr (sessionDir w)
      then (case sessionDir w of
              Some dir \<Rightarrow> Some (path_join dir ''tool-metadata.json'')
            | None \<Rightarrow> None)
      else None)"

definition readMetadataFile :: "world \<Rightarrow> (string \<times> ToolMetadata) list" where
  "readMetadataFile w =
     (case getMetadataFilePath w of
        None \<Rightarrow> []
      | Some filePath \<Rightarrow>
          (case obj_get (files w) filePath of None \<Rightarrow> [] | Some allMetadata \<Rightarrow> allMetadata))"

text \<open>Write to a temporary file, then rename it over the target. A failure of either step
  is swallowed.\<close>

definition writeMetadataFile :: "env \<Rightarrow> world \<Rightarrow> (string \<times> ToolMetadata) list \<Rightarrow> world" where
  "writeMetadataFile e w allMetadata =
     (case getMetadataFilePath w of
        None \<Rightarrow> w
      | Some filePath \<Rightarrow>
          (let tmpPath = filePath @ ''.tmp''
           in if \<not> writeOk e then w
              else
                (let w1 = w\<lparr>files := obj_set (files w) tmpPath allMetadata\<rparr>
                 in if \<not> renameOk e then w1
                    else w1\<lparr>files := obj_set (obj_delete (files w1) tmpPath) filePath allMetadata\<rparr>)))"



text \<open>\<open>set\<close> is typed for a string id; the stripping stream passes whatever truthy value the
  block's \<open>id\<close> was, so the key is a JSON value. The file cache is an object, assigned to
  under the key \<open>String(id)\<close>: the id \<open>__proto__\<close> reaches the map and not the file.\<close>

definition toolMetadataStore_set :: "env \<Rightarrow> world \<Rightarrow> json \<Rightarrow> ToolMetadata \<Rightarrow> world" where
  "toolMetadataStore_set e w toolUseId metadata =
     (let w1 = w\<lparr>metadataMap := Map_set (metadataMap w) (Some toolUseId) metadata\<rparr>;
          cache = (case fileCache w1 of None \<Rightarrow> readMetadataFile w1 | Some c \<Rightarrow> c);
          cache' = obj_assign cache (js_toString toolUseId) metadata;
          w2 = w1\<lparr>fileCache := Some cache'\<rparr>
      in writeMetadataFile e w2 cache')"


definition toolMetadataStore_delete :: "env \<Rightarrow> world \<Rightarrow> string \<Rightarrow> world" where
  "toolMetadataStore_delete e w toolUseId =
     (let w1 = w\<lparr>metadataMap := Map_delete (metadataMap w) (Some (JStr toolUseId))\<rparr>;
          cache = (case fileCache w1 of None \<Rightarrow> readMetadataFile w1 | Some c \<Rightarrow> c);
          cache' = obj_delete cache toolUseId;
          w2 = w1\<lparr>fileCache := Some cache'\<rparr>
      in writeMetadataFile e w2 cache')"

section \<open>Capturing API errors\<close>

definition getConfiguredBaseUrl :: "env \<Rightarrow> string" where
  "getConfiguredBaseUrl e =
     (case ANTHROPIC_BASE_URL e of
        None \<Rightarrow> ''https://api.anthropic.com''
      | Some v \<Rightarrow> if trim v \<noteq> [] then trim v else ''https://api.anthropic.com'')"

definition isApiMessagesUrl :: "env \<Rightarrow> string \<Rightarrow> bool" where
  "isApiMessagesUrl e url = (prefix (getConfiguredBaseUrl e) url \<and> str_includes url ''/messages'')"

definition shouldCaptureApiErrors :: "env \<Rightarrow> string \<Rightarrow> bool" where
  "shouldCaptureApiErrors e url = isApiMessagesUrl e url"

text \<open>A response as \<open>logResponse\<close> reads it: the status line and the body text of its clone
  (\<open>None\<close> when reading the body throws).\<close>

record response =
  resp_status :: int
  resp_statusText :: string
  resp_text :: "string option"

text \<open>The message of a JSON error body: \<open>error.message\<close>, else \<open>message\<close>, else the status
  text. Reading \<open>error\<close> of a body that parsed to \<open>null\<close> throws inside the inner \<open>try\<close>.\<close>

definition errorMessageOf :: "runtime \<Rightarrow> string \<Rightarrow> string \<Rightarrow> json" where
  "errorMessageOf rt errorText fallback =
     (let raw = (if errorText \<noteq> [] then JStr errorText else JStr fallback)
      in case JSON_parse rt errorText of
           None \<Rightarrow> raw
         | Some errorJson \<Rightarrow>
             (case getProp errorJson ''error'' of
                Inl ex \<Rightarrow> raw
              | Inr err \<Rightarrow>
                  (case getPropOpt err ''message'' of
                     Some m \<Rightarrow> if truthy (Some m) then m
                       else (case getPropOpt (Some errorJson) ''message'' of
                               Some m2 \<Rightarrow> if truthy (Some m2) then m2 else JStr fallback
                             | None \<Rightarrow> JStr fallback)
                   | None \<Rightarrow>
                       (case getPropOpt (Some errorJson) ''message'' of
                          Some m2 \<Rightarrow> if truthy (Some m2) then m2 else JStr fallback
                        | None \<Rightarrow> JStr fallback))))"

text \<open>The capturing part of \<open>logResponse\<close>; the rest of it only logs, and it returns the
  response it was given.\<close>

definition logResponse :: "runtime \<Rightarrow> env \<Rightarrow> world \<Rightarrow> response \<Rightarrow> string \<Rightarrow> world" where
  "logResponse rt e w resp url =
     (if shouldCaptureApiErrors e url \<and> resp_status resp \<ge> 400
      then (case resp_text resp of
              Some errorText \<Rightarrow>
                setStoredError e w (Some \<lparr> status = resp_status resp,
                  statusText = resp_statusText resp,
                  message = errorMessageOf rt errorText (resp_statusText resp),
                  err_timestamp = now e \<rparr>)
            | None \<Rightarrow>
                setStoredError e w (Some \<lparr> status = resp_status resp,
                  statusText = resp_statusText resp,
                  message = JStr (resp_statusText resp),
                  err_timestamp = now e \<rparr>))
      else w)"

section \<open>The request rewriter\<close>

text \<open>
  The two rewriting functions cast the parsed body to declared shapes; the records below are
  those shapes, every optional field an \<open>option\<close>, and a field \<open>other\<close> for the properties
  the functions never touch.
\<close>

record input_schema =
  properties :: "(string \<times> json) list option"
  required :: "string list option"
  schema_other :: "(string \<times> json) list"

record tool =
  tool_name :: "string option"
  tool_input_schema :: "input_schema option"
  tool_other :: "(string \<times> json) list"

record content_block =
  block_type :: "string option"
  block_id :: "string option"
  block_input :: "(string \<times> json) list option"
  block_other :: "(string \<times> json) list"

text \<open>\<open>message.content\<close> is an array of blocks, or anything else (a string, or missing).\<close>

datatype message_content = ContentArray "content_block list" | ContentOther jsval

record message =
  role :: "string option"
  content :: message_content
  message_other :: "(string \<times> json) list"

record body =
  tools :: "tool list option"
  messages :: "message list option"
  body_other :: "(string \<times> json) list"

definition TOOL_METADATA_FOR_ALL_TOOLS :: bool where
  "TOOL_METADATA_FOR_ALL_TOOLS = False"

definition intentProperty :: json where
  "intentProperty = JObj [(''type'', JStr ''string''),
     (''description'', JStr ''REQUIRED: Describe what you are trying to accomplish with this tool call (1-2 sentences)'')]"

definition displayNameProperty :: json where
  \<open>displayNameProperty = JObj [(''type'', JStr ''string''),
     (''description'', JStr ''REQUIRED: Human-friendly name for this action (2-4 words, e.g., "List Folders", "Search Documents", "Create Task")'')]\<close>

text \<open>The body of the loop over \<open>tools\<close>.\<close>

definition addMetadataToTool :: "tool \<Rightarrow> tool" where
  "addMetadataToTool t =
     (let isMcpTool = (case tool_name t of Some n \<Rightarrow> prefix ''mcp__'' n | None \<Rightarrow> False)
      in if \<not> TOOL_METADATA_FOR_ALL_TOOLS \<and> \<not> isMcpTool then t
         else
           (case tool_input_schema t of
              None \<Rightarrow> t
            | Some schema \<Rightarrow>
                (case properties schema of
                   None \<Rightarrow> t
                 | Some props \<Rightarrow>
                     (let addIntent = \<not> obj_has props ''_intent'';
                          props1 = (if addIntent then obj_set props ''_intent'' intentProperty
                                    else props);
                          addDisplayName = \<not> obj_has props1 ''_displayName'';
                          props2 = (if addDisplayName
                                    then obj_set props1 ''_displayName'' displayNameProperty
                                    else props1);
                          modified = (addIntent \<or> addDisplayName)
                      in if modified then
                           (let currentRequired = (case required schema of Some r \<Rightarrow> r | None \<Rightarrow> []);
                                newRequired = currentRequired
                                  @ (if ''_intent'' \<in> set currentRequired then [] else [''_intent''])
                                  @ (if ''_displayName'' \<in> set currentRequired then []
                                     else [''_displayName''])
                            in t\<lparr>tool_input_schema :=
                                   Some (schema\<lparr>properties := Some props2,
                                                 required := Some newRequired\<rparr>)\<rparr>)
                         else t))))"

definition addMetadataToAllTools :: "body \<Rightarrow> body" where
  "addMetadataToAllTools b =
     (case tools b of
        None \<Rightarrow> b
      | Some ts \<Rightarrow> b\<lparr>tools := Some (map addMetadataToTool ts)\<rparr>)"

text \<open>What is written into a block's input once its stored metadata is found.\<close>

definition injectStored :: "ToolMetadata \<Rightarrow> (string \<times> json) list \<Rightarrow> (string \<times> json) list" where
  "injectStored stored inp =
     (let inp1 = (case intent stored of
                    Some i \<Rightarrow> if i \<noteq> [] then obj_set inp ''_intent'' (JStr i) else inp
                  | None \<Rightarrow> inp)
      in case displayName stored of
           Some d \<Rightarrow> if d \<noteq> [] then obj_set inp1 ''_displayName'' (JStr d) else inp1
         | None \<Rightarrow> inp1)"

text \<open>
  The body of the inner loop. \<open>fileMetadata\<close> is the loop's lazily read copy of the session
  file: \<open>None\<close> until a block misses the in-memory map. When the file has no entry for the
  id but \<open>Object.prototype\<close> has a member of that name, \<open>stored\<close> is that member: it is
  truthy and has neither \<open>intent\<close> nor \<open>displayName\<close>, so nothing is written to the block.
\<close>

definition injectBlock ::
  "world \<Rightarrow> (string \<times> ToolMetadata) list option \<Rightarrow> content_block
    \<Rightarrow> content_block \<times> (string \<times> ToolMetadata) list option" where
  "injectBlock w fileMetadata block =
     (case (block_id block, block_input block) of
        (Some bid, Some inp) \<Rightarrow>
          if block_type block = Some ''tool_use'' \<and> bid \<noteq> [] then
            (if obj_has inp ''_intent'' \<or> obj_has inp ''_displayName'' then (block, fileMetadata)
             else
               (case Map_get (metadataMap w) (Some (JStr bid)) of
                  Some stored \<Rightarrow> (block\<lparr>block_input := Some (injectStored stored inp)\<rparr>, fileMetadata)
                | None \<Rightarrow>
                    (let fm = (case fileMetadata of None \<Rightarrow> readMetadataFile w | Some f \<Rightarrow> f)
                     in case obj_read fm bid of
                          Stored stored \<Rightarrow>
                            (block\<lparr>block_input := Some (injectStored stored inp)\<rparr>, Some fm)
                        | PrototypeMember k \<Rightarrow> (block, Some fm)
                        | Undefined \<Rightarrow> (block, Some fm))))
          else (block, fileMetadata)
      | _ \<Rightarrow> (block, fileMetadata))"

fun injectBlocks ::
  "world \<Rightarrow> (string \<times> ToolMetadata) list option \<Rightarrow> content_block list
    \<Rightarrow> content_block list \<times> (string \<times> ToolMetadata) list option" where
  "injectBlocks w fileMetadata [] = ([], fileMetadata)"
| "injectBlocks w fileMetadata (block # blocks) =
     (case injectBlock w fileMetadata block of
        (block', fm1) \<Rightarrow>
          (case injectBlocks w fm1 blocks of
             (blocks', fm2) \<Rightarrow> (block' # blocks', fm2)))"

definition injectMessage ::
  "world \<Rightarrow> (string \<times> ToolMetadata) list option \<Rightarrow> message
    \<Rightarrow> message \<times> (string \<times> ToolMetadata) list option" where
  "injectMessage w fileMetadata m =
     (case content m of
        ContentArray blocks \<Rightarrow>
          if role m = Some ''assistant'' then
            (case injectBlocks w fileMetadata blocks of
               (blocks', fm) \<Rightarrow> (m\<lparr>content := ContentArray blocks'\<rparr>, fm))
          else (m, fileMetadata)
      | ContentOther v \<Rightarrow> (m, fileMetadata))"

fun injectMessages ::
  "world \<Rightarrow> (string \<times> ToolMetadata) list option \<Rightarrow> message list
    \<Rightarrow> message list \<times> (string \<times> ToolMetadata) list option" where
  "injectMessages w fileMetadata [] = ([], fileMetadata)"
| "injectMessages w fileMetadata (m # ms) =
     (case injectMessage w fileMetadata m of
        (m', fm1) \<Rightarrow>
          (case injectMessages w fm1 ms of
             (ms', fm2) \<Rightarrow> (m' # ms', fm2)))"

definition injectMetadataIntoHistory :: "world \<Rightarrow> body \<Rightarrow> body" where
  "injectMetadataIntoHistory w b =
     (case messages b of
        None \<Rightarrow> b
      | Some ms \<Rightarrow> b\<lparr>messages := Some (fst (injectMessages w None ms))\<rparr>)"

section \<open>The SSE metadata-stripping stream\<close>

record TrackedToolBlock =
  tb_id :: json
  tb_name :: json
  tb_index :: jsval
  bufferedJson :: string

text \<open>The variables the transform closes over. A chunk enqueued on the controller is a
  string; the output of a call is the list of chunks it enqueued, in order.\<close>

record sse_state =
  lineBuffer :: string
  currentEventType :: string
  currentData :: string
  trackedBlocks :: "(jsval \<times> TrackedToolBlock) list"
  eventCount :: nat

definition initialState :: sse_state where
  "initialState = \<lparr> lineBuffer = [], currentEventType = [], currentData = [],
     trackedBlocks = [], eventCount = 0 \<rparr>"

text \<open>
  \<open>/^event:\s*(.+)$/\<close> and \<open>/^data:\s*(.+)$/\<close>: the text matched by the group, if the line
  matches. \<open>\s*\<close> takes all the white space it can, and the group must then reach the end
  of the line without meeting a line terminator. When the white space runs to the end,
  \<open>\s*\<close> gives its last character back to the group, which matches it unless it is a line
  terminator.
\<close>

definition matchField :: "string \<Rightarrow> string \<Rightarrow> string option" where
  "matchField tag s =
     (if prefix tag s then
        (let rest = drop (length tag) s;
             r = dropLeading whiteSpace rest
         in if r \<noteq> [] then
              (if hasLineTerminator r then None else Some r)
            else
              (case leadingOf (map rev whiteSpace) (rev rest) of
                 None \<Rightarrow> None
               | Some q \<Rightarrow> if rev q \<in> set lineTerminators then None else Some (rev q)))
      else None)"

definition SSE_EVENT_RE :: "string \<Rightarrow> string option" where
  "SSE_EVENT_RE s = matchField ''event:'' s"

definition SSE_DATA_RE :: "string \<Rightarrow> string option" where
  "SSE_DATA_RE s = matchField ''data:'' s"

definition emitSseEvent :: "string \<Rightarrow> string \<Rightarrow> string" where
  "emitSseEvent eventType dataStr =
     ''event: '' @ eventType @ [CHR 0x0A] @ ''data: '' @ dataStr @ [CHR 0x0A, CHR 0x0A]"

text \<open>The synthetic delta event; \<open>JSON.stringify\<close> leaves out a property whose value is
  \<open>undefined\<close>.\<close>

definition deltaEvent :: "jsval \<Rightarrow> string \<Rightarrow> json" where
  "deltaEvent index partial =
     JObj ([(''type'', JStr ''content_block_delta'')]
       @ (case index of None \<Rightarrow> [] | Some i \<Rightarrow> [(''index'', i)])
       @ [(''delta'', JObj [(''type'', JStr ''input_json_delta''), (''partial_json'', JStr partial)])])"

text \<open>\<open>typeof v === 'string' ? v : undefined\<close>.\<close>

fun stringOrUndefined :: "jsval \<Rightarrow> string option" where
  "stringOrUndefined (Some (JStr s)) = Some s"
| "stringOrUndefined v = None"

text \<open>\<open>delete parsed._intent; delete parsed._displayName\<close>: only an object has own
  properties to lose.\<close>

fun deleteMetadata :: "json \<Rightarrow> json" where
  "deleteMetadata (JObj kvs) = JObj (obj_delete (obj_delete kvs ''_intent'') ''_displayName'')"
| "deleteMetadata v = v"

definition emitBufferedBlock ::
  "runtime \<Rightarrow> env \<Rightarrow> world \<Rightarrow> TrackedToolBlock \<Rightarrow> jsval \<Rightarrow> world \<times> string list" where
  "emitBufferedBlock rt e w block index =
     (if bufferedJson block = [] then (w, [])
      else
        (let fallback = (w, [emitSseEvent ''content_block_delta''
               (JSON_stringify rt (deltaEvent index (bufferedJson block)))])
         in case JSON_parse rt (bufferedJson block) of
              None \<Rightarrow> fallback
            | Some parsed \<Rightarrow>
                (case getProp parsed ''_intent'' of
                   Inl ex \<Rightarrow> fallback
                 | Inr rawIntent \<Rightarrow>
                     (let intent = stringOrUndefined rawIntent;
                          displayName = stringOrUndefined (getPropOpt (Some parsed) ''_displayName'');
                          w' = (if truthyStr intent \<or> truthyStr displayName
                                then toolMetadataStore_set e w (tb_id block)
                                       \<lparr> intent = intent, displayName = displayName,
                                         timestamp = now e \<rparr>
                                else w);
                          cleanJson = JSON_stringify rt (deleteMetadata parsed)
                      in (w', [emitSseEvent ''content_block_delta''
                                 (JSON_stringify rt (deltaEvent index cleanJson))])))))"

definition passThrough ::
  "world \<Rightarrow> sse_state \<Rightarrow> string \<Rightarrow> string \<Rightarrow> js_error + world \<times> sse_state \<times> string list" where
  "passThrough w st eventType dataStr = Inr (w, st, [emitSseEvent eventType dataStr])"

text \<open>\<open>delta.partial_json ?? ''\<close>, as \<open>+=\<close> appends it to a string.\<close>

fun partialJsonText :: "jsval \<Rightarrow> string" where
  "partialJsonText None = []"
| "partialJsonText (Some JNull) = []"
| "partialJsonText (Some v) = js_toString v"

definition processEvent ::
  "runtime \<Rightarrow> env \<Rightarrow> world \<Rightarrow> sse_state \<Rightarrow> string \<Rightarrow> string
    \<Rightarrow> js_error + world \<times> sse_state \<times> string list" where
  "processEvent rt e w st0 eventType dataStr =
     (let st = st0\<lparr>eventCount := Suc (eventCount st0)\<rparr>
      in case JSON_parse rt dataStr of
           None \<Rightarrow> passThrough w st eventType dataStr
         | Some data \<Rightarrow>
             if eventType = ''content_block_start'' then
               (case getProp data ''content_block'' of
                  Inl ex \<Rightarrow> Inl ex
                | Inr contentBlock \<Rightarrow>
                    (case (getPropOpt contentBlock ''id'', getPropOpt contentBlock ''name'') of
                       (Some cid, Some cname) \<Rightarrow>
                         if getPropOpt contentBlock ''type'' = Some (JStr ''tool_use'')
                            \<and> truthy (Some cid) \<and> cname \<noteq> JNull
                         then
                           (let index = getPropOpt (Some data) ''index''
                            in passThrough w
                                 (st\<lparr>trackedBlocks := Map_set (trackedBlocks st) index
                                    \<lparr> tb_id = cid, tb_name = cname, tb_index = index,
                                      bufferedJson = [] \<rparr>\<rparr>)
                                 eventType dataStr)
                         else passThrough w st eventType dataStr
                     | _ \<Rightarrow> passThrough w st eventType dataStr))
             else if eventType = ''content_block_delta'' then
               (case getProp data ''index'' of
                  Inl ex \<Rightarrow> Inl ex
                | Inr index \<Rightarrow>
                    (let delta = getPropOpt (Some data) ''delta''
                     in case Map_get (trackedBlocks st) index of
                          Some block \<Rightarrow>
                            if getPropOpt delta ''type'' = Some (JStr ''input_json_delta'') then
                              Inr (w,
                                   st\<lparr>trackedBlocks := Map_set (trackedBlocks st) index
                                      (block\<lparr>bufferedJson := bufferedJson block
                                         @ partialJsonText (getPropOpt delta ''partial_json'')\<rparr>)\<rparr>,
                                   [])
                            else passThrough w st eventType dataStr
                        | None \<Rightarrow> passThrough w st eventType dataStr))
             else if eventType = ''content_block_stop'' then
               (case getProp data ''index'' of
                  Inl ex \<Rightarrow> Inl ex
                | Inr index \<Rightarrow>
                    (case Map_get (trackedBlocks st) index of
                       Some block \<Rightarrow>
                         (case emitBufferedBlock rt e w block index of
                            (w', out) \<Rightarrow>
                              Inr (w',
                                   st\<lparr>trackedBlocks := Map_delete (trackedBlocks st) index\<rparr>,
                                   out @ [emitSseEvent eventType dataStr]))
                     | None \<Rightarrow> passThrough w st eventType dataStr))
             else passThrough w st eventType dataStr)"

text \<open>The body of the loop over the lines of a chunk.\<close>

definition processLine ::
  "runtime \<Rightarrow> env \<Rightarrow> world \<Rightarrow> sse_state \<Rightarrow> string
    \<Rightarrow> js_error + world \<times> sse_state \<times> string list" where
  "processLine rt e w st line =
     (let trimmed = trim line
      in if trimmed = [] then
           (case (if currentEventType st \<noteq> [] \<and> currentData st \<noteq> []
                  then processEvent rt e w st (currentEventType st) (currentData st)
                  else Inr (w, st, [])) of
              Inl ex \<Rightarrow> Inl ex
            | Inr (w', st', out) \<Rightarrow>
                Inr (w', st'\<lparr>currentEventType := [], currentData := []\<rparr>, out))
         else
           (case SSE_EVENT_RE trimmed of
              Some g \<Rightarrow> Inr (w, st\<lparr>currentEventType := trim g\<rparr>, [])
            | None \<Rightarrow>
                (case SSE_DATA_RE trimmed of
                   Some g \<Rightarrow> Inr (w, st\<lparr>currentData := g\<rparr>, [])
                 | None \<Rightarrow> Inr (w, st, []))))"

text \<open>The loop over the lines. When a line throws, the chunks enqueued for the lines before
  it have been enqueued: the result is the exception together with them.\<close>

fun processLines ::
  "runtime \<Rightarrow> env \<Rightarrow> world \<Rightarrow> sse_state \<Rightarrow> string list
    \<Rightarrow> js_error \<times> string list + world \<times> sse_state \<times> string list" where
  "processLines rt e w st [] = Inr (w, st, [])"
| "processLines rt e w st (line # lines) =
     (case processLine rt e w st line of
        Inl ex \<Rightarrow> Inl (ex, [])
      | Inr (w1, st1, out1) \<Rightarrow>
          (case processLines rt e w1 st1 lines of
             Inl (ex, out2) \<Rightarrow> Inl (ex, out1 @ out2)
           | Inr (w2, st2, out2) \<Rightarrow> Inr (w2, st2, out1 @ out2)))"

text \<open>\<open>transform(chunk, controller)\<close>: an exception the body throws errors the stream
  (\<open>Inl\<close>, with the chunks the call enqueued before it).\<close>

definition transform ::
  "runtime \<Rightarrow> env \<Rightarrow> world \<Rightarrow> sse_state \<Rightarrow> string
    \<Rightarrow> js_error \<times> string list + world \<times> sse_state \<times> string list" where
  "transform rt e w st chunk =
     (let text = lineBuffer st @ chunk;
          lines = splitLines text
      in processLines rt e w (st\<lparr>lineBuffer := last lines\<rparr>) (butlast lines))"

text \<open>The loop of \<open>flush\<close> over the blocks still tracked, in the map's insertion order.\<close>

fun emitRemaining ::
  "runtime \<Rightarrow> env \<Rightarrow> world \<Rightarrow> (jsval \<times> TrackedToolBlock) list \<Rightarrow> world \<times> string list" where
  "emitRemaining rt e w [] = (w, [])"
| "emitRemaining rt e w ((index, block) # rest) =
     (case emitBufferedBlock rt e w block index of
        (w1, out1) \<Rightarrow>
          (case emitRemaining rt e w1 rest of
             (w2, out2) \<Rightarrow> (w2, out1 @ out2)))"

definition flush ::
  "runtime \<Rightarrow> env \<Rightarrow> world \<Rightarrow> sse_state
    \<Rightarrow> js_error \<times> string list + world \<times> sse_state \<times> string list" where
  "flush rt e w st =
     (case (if trim (lineBuffer st) \<noteq> [] then
              (case processLines rt e w st (splitLines (lineBuffer st)) of
                 Inl thrown \<Rightarrow> Inl thrown
               | Inr (w1, st1, out1) \<Rightarrow>
                   if currentEventType st1 \<noteq> [] \<and> currentData st1 \<noteq> [] then
                     (case processEvent rt e w1 st1 (currentEventType st1) (currentData st1) of
                        Inl ex \<Rightarrow> Inl (ex, out1)
                      | Inr (w2, st2, out2) \<Rightarrow> Inr (w2, st2, out1 @ out2))
                   else Inr (w1, st1, out1))
            else Inr (w, st, [])) of
        Inl thrown \<Rightarrow> Inl thrown
      | Inr (w1, st1, out1) \<Rightarrow>
          (case emitRemaining rt e w1 (trackedBlocks st1) of
             (w2, out2) \<Rightarrow>
               Inr (w2, st1\<lparr>trackedBlocks := [], lineBuffer := []\<rparr>, out1 @ out2)))"

text \<open>A response body piped through a fresh stripping stream: the chunks arrive one call
  to \<open>transform\<close> each, every call in its own environment, and \<open>flush\<close> closes the stream.
  The result is the chunks enqueued, with the store they leave or, when a call threw, with
  the exception that errored the stream after them.\<close>

fun transformAll ::
  "runtime \<Rightarrow> world \<Rightarrow> sse_state \<Rightarrow> (env \<times> string) list
    \<Rightarrow> js_error \<times> string list + world \<times> sse_state \<times> string list" where
  "transformAll rt w st [] = Inr (w, st, [])"
| "transformAll rt w st ((e, chunk) # chunks) =
     (case transform rt e w st chunk of
        Inl thrown \<Rightarrow> Inl thrown
      | Inr (w1, st1, out1) \<Rightarrow>
          (case transformAll rt w1 st1 chunks of
             Inl (ex, out2) \<Rightarrow> Inl (ex, out1 @ out2)
           | Inr (w2, st2, out2) \<Rightarrow> Inr (w2, st2, out1 @ out2)))"

definition pipeThrough ::
  "runtime \<Rightarrow> world \<Rightarrow> (env \<times> string) list \<Rightarrow> env
    \<Rightarrow> js_error \<times> string list + world \<times> string list" where
  "pipeThrough rt w chunks eflush =
     (case transformAll rt w initialState chunks of
        Inl thrown \<Rightarrow> Inl thrown
      | Inr (w1, st1, out1) \<Rightarrow>
          (case flush rt eflush w1 st1 of
             Inl (ex, out2) \<Rightarrow> Inl (ex, out1 @ out2)
           | Inr (w2, st2, out2) \<Rightarrow> Inr (w2, out1 @ out2)))"

section \<open>The OAuth flow controller\<close>



definition CALLBACK_PATH :: string where
  "CALLBACK_PATH = ''/oauth/callback''"





text \<open>A request as the handler reads it: the path, and the query parameters \<open>code\<close>,
  \<open>state\<close> and \<open>error\<close> (\<open>searchParams.get\<close> gives \<open>null\<close> for a missing one).\<close>

record callback_request =
  pathname :: string
  code :: "string option"
  state :: "string option"
  error :: "string option"

text \<open>What the handler does to the promise of the authorization code.\<close>

datatype code_outcome = Resolve string | Reject string | Pending

record callback_reply =
  reply_status :: nat
  reply_title :: string
  outcome :: code_outcome
  stops_server :: bool

definition handleCallback :: "string \<Rightarrow> callback_request \<Rightarrow> callback_reply" where
  "handleCallback expectedState req =
     (if pathname req = CALLBACK_PATH then
        (if truthyStr (error req) then
           \<lparr> reply_status = 400, reply_title = ''Authorization Failed'',
             outcome = Reject (''OAuth error: '' @ (case error req of Some err \<Rightarrow> err | None \<Rightarrow> [])),
             stops_server = True \<rparr>
         else if state req \<noteq> Some expectedState then
           \<lparr> reply_status = 400, reply_title = ''Security Error'',
             outcome = Reject ''OAuth state mismatch'', stops_server = True \<rparr>
         else if \<not> truthyStr (code req) then
           \<lparr> reply_status = 400, reply_title = ''Authorization Failed'',
             outcome = Reject ''No authorization code'', stops_server = True \<rparr>
         else
           \<lparr> reply_status = 200, reply_title = ''Authorization Successful'',
             outcome = Resolve (case code req of Some c \<Rightarrow> c | None \<Rightarrow> []),
             stops_server = True \<rparr>)
      else \<lparr> reply_status = 404, reply_title = ''Not found'', outcome = Pending,
             stops_server = False \<rparr>)"










section \<open>Events on the wire, and reading a stream back\<close>



definition wire :: "string \<times> string \<Rightarrow> string" where
  "wire ev = emitSseEvent (fst ev) (snd ev)"








section \<open>Concrete scenarios\<close>

definition world0 :: world where
  "world0 = \<lparr> sessionDir = Some ''/sessions/s1'', metadataMap = [], fileCache = None,
     files = [], errorFile = NoErrorFile \<rparr>"

definition env0 :: env where
  "env0 = \<lparr> now = 1700000000000, writeOk = True, renameOk = True, unlinkOk = True,
     ANTHROPIC_BASE_URL = None \<rparr>"

text \<open>One tool-use block whose input arrives in two fragments.\<close>

definition toolStart :: "string \<times> string" where
  \<open>toolStart = (''content_block_start'',
     ''{"type":"content_block_start","index":0,"content_block":{"type":"tool_use","id":"toolu_01","name":"mcp__demo__search","input":{}}}'')\<close>

definition toolStop :: "string \<times> string" where
  \<open>toolStop = (''content_block_stop'', ''{"type":"content_block_stop","index":0}'')\<close>

definition roundTripEvents :: "(string \<times> string) list" where
  \<open>roundTripEvents =
     [toolStart,
      (''content_block_delta'', stringify (deltaEvent (Some (JNum 0)) ''{"foo":"bar","_int'')),
      (''content_block_delta'', stringify (deltaEvent (Some (JNum 0)) ''ent":"x","_displayName":"y"}'')),
      toolStop]\<close>

definition roundTripStream :: string where
  "roundTripStream = concat (map wire roundTripEvents)"

text \<open>The same block with no fragment at all.\<close>

definition emptyToolStream :: string where
  "emptyToolStream = concat (map wire [toolStart, toolStop])"

definition emptyBlock :: TrackedToolBlock where
  "emptyBlock = \<lparr> tb_id = JStr ''toolu_01'', tb_name = JStr ''mcp__demo__search'',
     tb_index = Some (JNum 0), bufferedJson = [] \<rparr>"


text \<open>The request of the spec's end-to-end scenario: one MCP tool with a single property.\<close>

definition demoTool :: tool where
  "demoTool = \<lparr> tool_name = Some ''mcp__demo__search'',
     tool_input_schema = Some \<lparr> properties = Some [(''query'', JObj [(''type'', JStr ''string'')])],
       required = None, schema_other = [] \<rparr>,
     tool_other = [] \<rparr>"

definition demoBody :: body where
  "demoBody = \<lparr> tools = Some [demoTool], messages = None, body_other = [] \<rparr>"

text \<open>A history with one block that lost its metadata to the stripping stream and one that
  still carries \<open>_intent\<close>, and a store that knows both ids.\<close>

definition strippedBlock :: content_block where
  "strippedBlock = \<lparr> block_type = Some ''tool_use'', block_id = Some ''toolu_01'',
     block_input = Some [(''foo'', JStr ''bar'')], block_other = [] \<rparr>"

definition carryingBlock :: content_block where
  "carryingBlock = \<lparr> block_type = Some ''tool_use'', block_id = Some ''toolu_02'',
     block_input = Some [(''q'', JStr ''a''), (''_intent'', JStr ''kept'')], block_other = [] \<rparr>"

definition historyBody :: body where
  "historyBody = \<lparr> tools = None,
     messages = Some [\<lparr> role = Some ''assistant'',
                        content = ContentArray [strippedBlock, carryingBlock],
                        message_other = [] \<rparr>],
     body_other = [] \<rparr>"

definition historyWorld :: world where
  "historyWorld = world0\<lparr>metadataMap :=
     [(Some (JStr ''toolu_01''), \<lparr> intent = Some ''x'', displayName = Some ''y'', timestamp = 1 \<rparr>),
      (Some (JStr ''toolu_02''), \<lparr> intent = Some ''other'', displayName = None, timestamp = 2 \<rparr>)]\<rparr>"


definition paymentRequired :: response where
  \<open>paymentRequired = \<lparr> resp_status = 402, resp_statusText = ''Payment Required'',
     resp_text = Some ''{"error":{"message":"Out of credits"}}'' \<rparr>\<close>



text \<open>A callback whose state was forged and which also carries an error parameter.\<close>

definition forgedCallback :: callback_request where
  "forgedCallback = \<lparr> pathname = ''/oauth/callback'', code = Some ''abc'',
     state = Some ''forged'', error = Some ''access_denied'' \<rparr>"

section \<open>Objects and maps: basic facts\<close>

lemma map_fst_obj_set:
  "map fst (obj_set kvs k v) = (if k \<in> set (map fst kvs) then map fst kvs else map fst kvs @ [k])"
proof (induction kvs)
  case Nil
  then show ?case by simp
next
  case (Cons a kvs)
  then show ?case by (cases a) (auto simp: image_iff)
qed

lemma keys_obj_set: "set (map fst (obj_set kvs k v)) = insert k (set (map fst kvs))"
  unfolding map_fst_obj_set by auto

lemma obj_has_obj_set: "obj_has (obj_set kvs k v) k' = (k' = k \<or> obj_has kvs k')"
  unfolding obj_has_def keys_obj_set by auto


lemma map_of_obj_set_other: "k' \<noteq> k \<Longrightarrow> map_of (obj_set kvs k v) k' = map_of kvs k'"
  by (induction kvs) auto







section \<open>The request rewriter is idempotent\<close>

lemma addMetadataToTool_idem: "addMetadataToTool (addMetadataToTool t) = addMetadataToTool t"
proof (cases "\<not> TOOL_METADATA_FOR_ALL_TOOLS \<and> \<not> (case tool_name t of Some n \<Rightarrow> prefix ''mcp__'' n | None \<Rightarrow> False)")
  case True
  then show ?thesis by (simp add: addMetadataToTool_def)
next
  case gate: False
  show ?thesis
  proof (cases "tool_input_schema t")
    case None
    then show ?thesis by (simp add: addMetadataToTool_def)
  next
    case (Some schema)
    show ?thesis
    proof (cases "properties schema")
      case None
      then show ?thesis using Some by (simp add: addMetadataToTool_def)
    next
      case props: (Some props)
      show ?thesis
      proof (cases "obj_has props ''_intent'' \<and> obj_has props ''_displayName''")
        case True
        then show ?thesis using Some props gate by (simp add: addMetadataToTool_def Let_def)
      next
        case False
        define props2 where "props2 =
          (let props1 = (if \<not> obj_has props ''_intent'' then obj_set props ''_intent'' intentProperty else props)
           in if \<not> obj_has props1 ''_displayName'' then obj_set props1 ''_displayName'' displayNameProperty else props1)"
        define req where "req = (case required schema of Some r \<Rightarrow> r | None \<Rightarrow> [])
          @ (if ''_intent'' \<in> set (case required schema of Some r \<Rightarrow> r | None \<Rightarrow> []) then [] else [''_intent''])
          @ (if ''_displayName'' \<in> set (case required schema of Some r \<Rightarrow> r | None \<Rightarrow> []) then [] else [''_displayName''])"
        have r: "addMetadataToTool t
          = t\<lparr>tool_input_schema := Some (schema\<lparr>properties := Some props2, required := Some req\<rparr>)\<rparr>"
          using Some props gate False
          by (auto simp: addMetadataToTool_def Let_def props2_def req_def obj_has_obj_set)
        have h: "obj_has props2 ''_intent''" "obj_has props2 ''_displayName''"
          by (auto simp: props2_def Let_def obj_has_obj_set)
        show ?thesis
          unfolding r using gate h by (simp add: addMetadataToTool_def Let_def)
      qed
    qed
  qed
qed

text \<open>
  \<^bold>\<open>C6.\<close> Augmenting the tool schemas of a request body twice gives the same body as
  augmenting it once: the second pass adds or changes no property and appends nothing to any
  \<open>required\<close> list. The proof does not depend on the value of the feature flag.
\<close>

theorem C6_idempotent: "addMetadataToAllTools (addMetadataToAllTools b) = addMetadataToAllTools b"
  by (cases "tools b") (simp_all add: addMetadataToAllTools_def addMetadataToTool_idem)

text \<open>The end-to-end scenario of the specification: after the rewrite the schema of
  \<open>mcp__demo__search\<close> has the properties \<open>query\<close>, \<open>_intent\<close> and \<open>_displayName\<close>, and both new
  ones are required; a second rewrite changes nothing.\<close>

theorem C6_witness:
  "addMetadataToAllTools (addMetadataToAllTools demoBody) = addMetadataToAllTools demoBody
   \<and> tools (addMetadataToAllTools demoBody)
       = Some [demoTool\<lparr>tool_input_schema :=
           Some \<lparr> properties = Some [(''query'', JObj [(''type'', JStr ''string'')]),
                                      (''_intent'', intentProperty),
                                      (''_displayName'', displayNameProperty)],
                  required = Some [''_intent'', ''_displayName''], schema_other = [] \<rparr>\<rparr>]"
proof -
  have "tools (addMetadataToAllTools demoBody)
       = Some [demoTool\<lparr>tool_input_schema :=
           Some \<lparr> properties = Some [(''query'', JObj [(''type'', JStr ''string'')]),
                                      (''_intent'', intentProperty),
                                      (''_displayName'', displayNameProperty)],
                  required = Some [''_intent'', ''_displayName''], schema_other = [] \<rparr>\<rparr>]"
    by (simp add: addMetadataToAllTools_def addMetadataToTool_def demoBody_def demoTool_def
        obj_has_def Let_def)
  then show ?thesis using C6_idempotent[of demoBody] by simp
qed

lemma injectStored_cases:
  "injectStored stored inp = inp \<or> obj_has (injectStored stored inp) ''_intent''
     \<or> obj_has (injectStored stored inp) ''_displayName''"
  by (auto simp: injectStored_def Let_def obj_has_obj_set split: option.splits)

lemma injectBlock_ineligible:
  "\<not> (\<exists>bid inp. block_id block = Some bid \<and> block_input block = Some inp
        \<and> block_type block = Some ''tool_use'' \<and> bid \<noteq> []
        \<and> \<not> obj_has inp ''_intent'' \<and> \<not> obj_has inp ''_displayName'')
   \<Longrightarrow> injectBlock w fm block = (block, fm)"
  by (cases "block_id block"; cases "block_input block") (auto simp: injectBlock_def)

lemma injectBlock_eligible:
  assumes "block_id block = Some bid" "block_input block = Some inp"
    "block_type block = Some ''tool_use''" "bid \<noteq> []"
    "\<not> obj_has inp ''_intent''" "\<not> obj_has inp ''_displayName''"
  shows "injectBlock w fm block =
     (case Map_get (metadataMap w) (Some (JStr bid)) of
        Some stored \<Rightarrow> (block\<lparr>block_input := Some (injectStored stored inp)\<rparr>, fm)
      | None \<Rightarrow>
          (case obj_read (case fm of None \<Rightarrow> readMetadataFile w | Some f \<Rightarrow> f) bid of
             Stored stored \<Rightarrow>
               (block\<lparr>block_input := Some (injectStored stored inp)\<rparr>,
                Some (case fm of None \<Rightarrow> readMetadataFile w | Some f \<Rightarrow> f))
           | PrototypeMember k \<Rightarrow>
               (block, Some (case fm of None \<Rightarrow> readMetadataFile w | Some f \<Rightarrow> f))
           | Undefined \<Rightarrow>
               (block, Some (case fm of None \<Rightarrow> readMetadataFile w | Some f \<Rightarrow> f))))"
  using assms
  by (cases "Map_get (metadataMap w) (Some (JStr bid))") (simp_all add: injectBlock_def Let_def)

lemma injectBlock_lazy:
  assumes "fm = None \<or> fm = Some (readMetadataFile w)"
  shows "fst (injectBlock w fm block) = fst (injectBlock w (Some (readMetadataFile w)) block)
   \<and> (snd (injectBlock w fm block) = None \<or> snd (injectBlock w fm block) = Some (readMetadataFile w))"
proof (cases "\<exists>bid inp. block_id block = Some bid \<and> block_input block = Some inp
        \<and> block_type block = Some ''tool_use'' \<and> bid \<noteq> []
        \<and> \<not> obj_has inp ''_intent'' \<and> \<not> obj_has inp ''_displayName''")
  case False
  then show ?thesis using assms by (simp add: injectBlock_ineligible)
next
  case True
  then obtain bid inp where h: "block_id block = Some bid" "block_input block = Some inp"
    "block_type block = Some ''tool_use''" "bid \<noteq> []"
    "\<not> obj_has inp ''_intent''" "\<not> obj_has inp ''_displayName''" by blast
  have f: "(case fm of None \<Rightarrow> readMetadataFile w | Some f \<Rightarrow> f) = readMetadataFile w"
    using assms by auto
  show ?thesis
    unfolding injectBlock_eligible[OF h] f using assms
    by (cases "Map_get (metadataMap w) (Some (JStr bid))"; cases "obj_read (readMetadataFile w) bid")
       auto
qed

lemma injectBlock_skip:
  "block_input block = Some inp \<Longrightarrow> obj_has inp ''_intent'' \<or> obj_has inp ''_displayName'' \<Longrightarrow>
   injectBlock w fm block = (block, fm)"
  by (rule injectBlock_ineligible) auto

lemma injectBlock_result:
  "fst (injectBlock w (Some F) block) = block
   \<or> (\<exists>stored inp. block_input block = Some inp
        \<and> fst (injectBlock w (Some F) block) = block\<lparr>block_input := Some (injectStored stored inp)\<rparr>)"
proof (cases "\<exists>bid inp. block_id block = Some bid \<and> block_input block = Some inp
        \<and> block_type block = Some ''tool_use'' \<and> bid \<noteq> []
        \<and> \<not> obj_has inp ''_intent'' \<and> \<not> obj_has inp ''_displayName''")
  case False
  then show ?thesis by (simp add: injectBlock_ineligible)
next
  case True
  then obtain bid inp where h: "block_id block = Some bid" "block_input block = Some inp"
    "block_type block = Some ''tool_use''" "bid \<noteq> []"
    "\<not> obj_has inp ''_intent''" "\<not> obj_has inp ''_displayName''" by blast
  show ?thesis
    unfolding injectBlock_eligible[OF h] using h(2)
    by (cases "Map_get (metadataMap w) (Some (JStr bid))"; cases "obj_read F bid") auto
qed

lemma injectBlock_idem:
  "fst (injectBlock w (Some F) (fst (injectBlock w (Some F) block))) = fst (injectBlock w (Some F) block)"
proof -
  from injectBlock_result[of w F block] show ?thesis
  proof
    assume "fst (injectBlock w (Some F) block) = block"
    then show ?thesis by simp
  next
    assume "\<exists>stored inp. block_input block = Some inp
        \<and> fst (injectBlock w (Some F) block) = block\<lparr>block_input := Some (injectStored stored inp)\<rparr>"
    then obtain stored inp where inp: "block_input block = Some inp"
      and r: "fst (injectBlock w (Some F) block) = block\<lparr>block_input := Some (injectStored stored inp)\<rparr>"
      by blast
    from injectStored_cases[of stored inp] show ?thesis
    proof
      assume "injectStored stored inp = inp"
      then have "fst (injectBlock w (Some F) block) = block" using r inp by simp
      then show ?thesis by simp
    next
      assume "obj_has (injectStored stored inp) ''_intent'' \<or> obj_has (injectStored stored inp) ''_displayName''"
      then show ?thesis unfolding r
        by (subst injectBlock_skip[where inp = "injectStored stored inp"]) auto
    qed
  qed
qed

lemma injectBlocks_map:
  "fm = None \<or> fm = Some (readMetadataFile w) \<Longrightarrow>
   fst (injectBlocks w fm blocks) = map (\<lambda>b. fst (injectBlock w (Some (readMetadataFile w)) b)) blocks
   \<and> (snd (injectBlocks w fm blocks) = None \<or> snd (injectBlocks w fm blocks) = Some (readMetadataFile w))"
proof (induction blocks arbitrary: fm)
  case Nil
  then show ?case by auto
next
  case (Cons b bs)
  obtain b' fm1 where b: "injectBlock w fm b = (b', fm1)" by (cases "injectBlock w fm b")
  from injectBlock_lazy[OF Cons.prems, of b] b
  have b1: "b' = fst (injectBlock w (Some (readMetadataFile w)) b)"
    and f1: "fm1 = None \<or> fm1 = Some (readMetadataFile w)" by auto
  from Cons.IH[OF f1] show ?case using b b1 by (auto split: prod.splits)
qed

lemma injectMessage_lazy:
  "fm = None \<or> fm = Some (readMetadataFile w) \<Longrightarrow>
   fst (injectMessage w fm m) = fst (injectMessage w (Some (readMetadataFile w)) m)
   \<and> (snd (injectMessage w fm m) = None \<or> snd (injectMessage w fm m) = Some (readMetadataFile w))"
  using injectBlocks_map[of fm w] injectBlocks_map[of "Some (readMetadataFile w)" w]
  by (auto simp: injectMessage_def case_prod_beta split: message_content.splits)

lemma injectMessage_idem:
  "fst (injectMessage w (Some (readMetadataFile w)) (fst (injectMessage w (Some (readMetadataFile w)) m)))
     = fst (injectMessage w (Some (readMetadataFile w)) m)"
proof (cases "content m")
  case (ContentOther v)
  then show ?thesis by (simp add: injectMessage_def)
next
  case (ContentArray blocks)
  show ?thesis
  proof (cases "role m = Some ''assistant''")
    case False
    then show ?thesis using ContentArray by (simp add: injectMessage_def)
  next
    case True
    have m1: "fst (injectBlocks w (Some (readMetadataFile w)) bs)
              = map (\<lambda>b. fst (injectBlock w (Some (readMetadataFile w)) b)) bs" for bs
      using injectBlocks_map[of "Some (readMetadataFile w)" w bs] by simp
    have "fst (injectMessage w (Some (readMetadataFile w)) m)
          = m\<lparr>content := ContentArray (map (\<lambda>b. fst (injectBlock w (Some (readMetadataFile w)) b)) blocks)\<rparr>"
      using True ContentArray m1[of blocks] by (simp add: injectMessage_def case_prod_beta)
    then show ?thesis
      using True m1 by (simp add: injectMessage_def injectBlock_idem case_prod_beta)
  qed
qed

lemma injectMessages_map:
  "fm = None \<or> fm = Some (readMetadataFile w) \<Longrightarrow>
   fst (injectMessages w fm ms) = map (\<lambda>m. fst (injectMessage w (Some (readMetadataFile w)) m)) ms
   \<and> (snd (injectMessages w fm ms) = None \<or> snd (injectMessages w fm ms) = Some (readMetadataFile w))"
proof (induction ms arbitrary: fm)
  case Nil
  then show ?case by auto
next
  case (Cons m ms)
  obtain m' fm1 where b: "injectMessage w fm m = (m', fm1)" by (cases "injectMessage w fm m")
  from injectMessage_lazy[OF Cons.prems, of m] b
  have b1: "m' = fst (injectMessage w (Some (readMetadataFile w)) m)"
    and f1: "fm1 = None \<or> fm1 = Some (readMetadataFile w)" by auto
  from Cons.IH[OF f1] show ?case using b b1 by (auto split: prod.splits)
qed

lemma injectMetadataIntoHistory_idem:
  "injectMetadataIntoHistory w (injectMetadataIntoHistory w b) = injectMetadataIntoHistory w b"
proof (cases "messages b")
  case None
  then show ?thesis by (simp add: injectMetadataIntoHistory_def)
next
  case (Some ms)
  have "fst (injectMessages w None ms') = map (\<lambda>m. fst (injectMessage w (Some (readMetadataFile w)) m)) ms'" for ms'
    using injectMessages_map[of None w ms'] by simp
  then show ?thesis using Some by (simp add: injectMetadataIntoHistory_def injectMessage_idem)
qed

text \<open>
  \<^bold>\<open>C7.\<close> Re-injecting stored metadata into a message history twice gives the same history
  as doing it once, whatever the store and the session file hold; and the pass keeps every
  message and every block in its place and returns unchanged each block whose input already
  has \<open>_intent\<close> or \<open>_displayName\<close>.
\<close>

theorem C7_reinjection:
  "injectMetadataIntoHistory w (injectMetadataIntoHistory w b) = injectMetadataIntoHistory w b
   \<and> (\<forall>ms. messages b = Some ms \<longrightarrow>
        (\<exists>ms'. messages (injectMetadataIntoHistory w b) = Some ms' \<and> length ms' = length ms
          \<and> (\<forall>i blocks. i < length ms \<and> content (ms ! i) = ContentArray blocks \<longrightarrow>
               (\<exists>blocks'. content (ms' ! i) = ContentArray blocks' \<and> length blocks' = length blocks
                 \<and> (\<forall>j inp. j < length blocks \<and> block_input (blocks ! j) = Some inp
                       \<and> (obj_has inp ''_intent'' \<or> obj_has inp ''_displayName'')
                     \<longrightarrow> blocks' ! j = blocks ! j)))))"
proof (intro conjI allI impI)
  show "injectMetadataIntoHistory w (injectMetadataIntoHistory w b) = injectMetadataIntoHistory w b"
    by (rule injectMetadataIntoHistory_idem)
next
  fix ms assume ms: "messages b = Some ms"
  define F where "F = readMetadataFile w"
  define g where "g = (\<lambda>m. fst (injectMessage w (Some F) m))"
  have r: "messages (injectMetadataIntoHistory w b) = Some (map g ms)"
    using ms injectMessages_map[of None w ms] by (simp add: injectMetadataIntoHistory_def g_def F_def)
  have blk: "\<exists>blocks'. content (g m) = ContentArray blocks' \<and> length blocks' = length blocks
                 \<and> (\<forall>j inp. j < length blocks \<and> block_input (blocks ! j) = Some inp
                       \<and> (obj_has inp ''_intent'' \<or> obj_has inp ''_displayName'')
                     \<longrightarrow> blocks' ! j = blocks ! j)"
    if c: "content m = ContentArray blocks" for m blocks
  proof (cases "role m = Some ''assistant''")
    case False
    then show ?thesis using c by (simp add: g_def injectMessage_def)
  next
    case True
    have "content (g m) = ContentArray (map (\<lambda>b. fst (injectBlock w (Some F) b)) blocks)"
      using True c injectBlocks_map[of "Some F" w blocks]
      by (simp add: g_def injectMessage_def case_prod_beta F_def)
    moreover have "map (\<lambda>b. fst (injectBlock w (Some F) b)) blocks ! j = blocks ! j"
      if "j < length blocks" "block_input (blocks ! j) = Some inp"
         "obj_has inp ''_intent'' \<or> obj_has inp ''_displayName''" for j inp
      using that injectBlock_skip[of "blocks ! j" inp w "Some F"] by simp
    ultimately show ?thesis by auto
  qed
  show "\<exists>ms'. messages (injectMetadataIntoHistory w b) = Some ms' \<and> length ms' = length ms
          \<and> (\<forall>i blocks. i < length ms \<and> content (ms ! i) = ContentArray blocks \<longrightarrow>
               (\<exists>blocks'. content (ms' ! i) = ContentArray blocks' \<and> length blocks' = length blocks
                 \<and> (\<forall>j inp. j < length blocks \<and> block_input (blocks ! j) = Some inp
                       \<and> (obj_has inp ''_intent'' \<or> obj_has inp ''_displayName'')
                     \<longrightarrow> blocks' ! j = blocks ! j)))"
    using r blk by (intro exI[of _ "map g ms"]) auto
qed

text \<open>A history with a stripped block and a block that still carries \<open>_intent\<close>: the first
  gets both stored fields, the second is left as it was although the store knows its id.\<close>

theorem C7_witness:
  "injectMetadataIntoHistory historyWorld (injectMetadataIntoHistory historyWorld historyBody)
     = injectMetadataIntoHistory historyWorld historyBody
   \<and> block_input carryingBlock = Some [(''q'', JStr ''a''), (''_intent'', JStr ''kept'')]
   \<and> obj_has [(''q'', JStr ''a''), (''_intent'', JStr ''kept'')] ''_intent''
   \<and> messages (injectMetadataIntoHistory historyWorld historyBody)
       = Some [\<lparr> role = Some ''assistant'',
                  content = ContentArray
                    [strippedBlock\<lparr>block_input :=
                       Some [(''foo'', JStr ''bar''), (''_intent'', JStr ''x''), (''_displayName'', JStr ''y'')]\<rparr>,
                     carryingBlock],
                  message_other = [] \<rparr>]"
proof -
  have "messages (injectMetadataIntoHistory historyWorld historyBody)
       = Some [\<lparr> role = Some ''assistant'',
                  content = ContentArray
                    [strippedBlock\<lparr>block_input :=
                       Some [(''foo'', JStr ''bar''), (''_intent'', JStr ''x''), (''_displayName'', JStr ''y'')]\<rparr>,
                     carryingBlock],
                  message_other = [] \<rparr>]"
    by code_simp
  moreover have "obj_has [(''q'', JStr ''a''), (''_intent'', JStr ''kept'')] ''_intent''"
    by (simp add: obj_has_def)
  ultimately show ?thesis
    using C7_reinjection[of historyWorld historyBody] by (simp add: carryingBlock_def)
qed

section \<open>The metadata store across processes\<close>




section \<open>The error slot is read once\<close>

text \<open>
  \<^bold>\<open>C9.\<close> A response with status 400 or more from the provider's messages endpoint is
  captured (the write succeeds). A first \<open>getLastApiError()\<close> within five minutes of the
  capture returns the stored error and deletes the file (the delete succeeds); any call after
  it returns \<open>null\<close>; and a first call made five minutes or more after the error's timestamp
  returns \<open>null\<close> although the entry was never read.
\<close>

theorem C9_pop_semantics:
  assumes "shouldCaptureApiErrors e0 url" "resp_status resp \<ge> 400" "writeOk e0"
    and "now e1 - now e0 < MAX_ERROR_AGE_MS" "unlinkOk e1"
  shows "(\<exists>err. errorFile (logResponse rt e0 w resp url) = ErrorFile err
            \<and> status err = resp_status resp \<and> statusText err = resp_statusText resp
            \<and> err_timestamp err = now e0
            \<and> fst (getLastApiError e1 (logResponse rt e0 w resp url)) = Some err)
       \<and> errorFile (snd (getLastApiError e1 (logResponse rt e0 w resp url))) = NoErrorFile
       \<and> (\<forall>e2. fst (getLastApiError e2 (snd (getLastApiError e1 (logResponse rt e0 w resp url)))) = None)
       \<and> (\<forall>e3. now e3 - now e0 \<ge> MAX_ERROR_AGE_MS \<longrightarrow>
             fst (getLastApiError e3 (logResponse rt e0 w resp url)) = None)"
  using assms
  by (cases "resp_text resp")
     (auto simp: logResponse_def setStoredError_def getLastApiError_def getStoredError_def Let_def)

lemma capture_example:
  "shouldCaptureApiErrors env0 ''https://api.anthropic.com/v1/messages''"
  by code_simp

lemma first_read_example:
  "fst (getLastApiError (env0\<lparr>now := 1700000001000\<rparr>)
         (logResponse jsRuntime env0 world0 paymentRequired ''https://api.anthropic.com/v1/messages''))
     = Some \<lparr> status = 402, statusText = ''Payment Required'', message = JStr ''Out of credits'',
              err_timestamp = 1700000000000 \<rparr>"
  by code_simp

text \<open>A 402 with a JSON error body, read one second later, read again, and read for the first
  time after exactly five minutes.\<close>

theorem C9_witness:
  "fst (getLastApiError (env0\<lparr>now := 1700000001000\<rparr>)
         (logResponse jsRuntime env0 world0 paymentRequired ''https://api.anthropic.com/v1/messages''))
     = Some \<lparr> status = 402, statusText = ''Payment Required'', message = JStr ''Out of credits'',
              err_timestamp = 1700000000000 \<rparr>
   \<and> fst (getLastApiError (env0\<lparr>now := 1700000001001\<rparr>)
       (snd (getLastApiError (env0\<lparr>now := 1700000001000\<rparr>)
         (logResponse jsRuntime env0 world0 paymentRequired ''https://api.anthropic.com/v1/messages''))))
     = None
   \<and> fst (getLastApiError (env0\<lparr>now := 1700000300000\<rparr>)
         (logResponse jsRuntime env0 world0 paymentRequired ''https://api.anthropic.com/v1/messages''))
     = None"
proof -
  have h: "resp_status paymentRequired \<ge> 400" "writeOk env0"
    "now (env0\<lparr>now := 1700000001000\<rparr>) - now env0 < MAX_ERROR_AGE_MS"
    "unlinkOk (env0\<lparr>now := 1700000001000\<rparr>)"
    "now (env0\<lparr>now := 1700000300000\<rparr>) - now env0 \<ge> MAX_ERROR_AGE_MS"
    by (simp_all add: paymentRequired_def env0_def MAX_ERROR_AGE_MS_def)
  from C9_pop_semantics[OF capture_example h(1-4), of jsRuntime world0] h(5) first_read_example
  show ?thesis by blast
qed

section \<open>The stripping stream does not depend on how its input is cut\<close>

text \<open>
  What a call enqueues and the state it leaves depend neither on the store nor on the
  environment; lines are processed the same whichever chunk completes them.
\<close>

lemma obs_cases:
  assumes "map_sum id snd r = map_sum id snd r'"
  shows "(\<exists>ex. r = Inl ex \<and> r' = Inl ex)
       \<or> (\<exists>w w' st out. r = Inr (w, st, out) \<and> r' = Inr (w', st, out))"
  using assms by (cases r; cases r') auto

lemma emitBufferedBlock_out:
  "snd (emitBufferedBlock rt e w block index) = snd (emitBufferedBlock rt e' w' block index)"
  by (simp add: emitBufferedBlock_def Let_def split: option.splits sum.splits)

lemma processEvent_obs:
  "map_sum id snd (processEvent rt e w st t d) = map_sum id snd (processEvent rt e' w' st t d)"
proof -
  have "\<And>block index. snd (emitBufferedBlock rt e w block index)
          = snd (emitBufferedBlock rt e' w' block index)"
    by (rule emitBufferedBlock_out)
  then show ?thesis
    by (simp add: processEvent_def passThrough_def Let_def case_prod_beta
        split: option.splits sum.splits)
qed

lemma processLine_obs:
  "map_sum id snd (processLine rt e w st l) = map_sum id snd (processLine rt e' w' st l)"
proof -
  from obs_cases[OF processEvent_obs[of rt e w st "currentEventType st" "currentData st" e' w']]
  show ?thesis
    by (auto simp: processLine_def Let_def split: option.splits)
qed

lemma processLines_obs:
  "map_sum id snd (processLines rt e w st ls) = map_sum id snd (processLines rt e' w' st ls)"
proof (induction ls arbitrary: w w' st)
  case Nil
  then show ?case by simp
next
  case (Cons l ls)
  from obs_cases[OF processLine_obs[of rt e w st l e' w']] show ?case
  proof (elim disjE exE conjE)
    fix ex assume "processLine rt e w st l = Inl ex" "processLine rt e' w' st l = Inl ex"
    then show ?thesis by simp
  next
    fix w1 w1' st1 out1
    assume a: "processLine rt e w st l = Inr (w1, st1, out1)"
              "processLine rt e' w' st l = Inr (w1', st1, out1)"
    from obs_cases[OF Cons.IH[of w1 st1 w1']] show ?thesis
      using a by auto
  qed
qed

lemma processLines_append:
  "processLines rt e w st (xs @ ys) =
     (case processLines rt e w st xs of
        Inl thrown \<Rightarrow> Inl thrown
      | Inr (w1, st1, out1) \<Rightarrow>
          (case processLines rt e w1 st1 ys of
             Inl (ex, out2) \<Rightarrow> Inl (ex, out1 @ out2)
           | Inr (w2, st2, out2) \<Rightarrow> Inr (w2, st2, out1 @ out2)))"
  by (induction xs arbitrary: w st) (auto split: sum.splits)

lemma processEvent_lineBuffer:
  "processEvent rt e w (st\<lparr>lineBuffer := x\<rparr>) t d
     = map_sum id (\<lambda>(w', st', out). (w', st'\<lparr>lineBuffer := x\<rparr>, out)) (processEvent rt e w st t d)"
  by (simp add: processEvent_def passThrough_def Let_def case_prod_beta
      split: option.splits sum.splits)

lemma processLine_lineBuffer:
  "processLine rt e w (st\<lparr>lineBuffer := x\<rparr>) l
     = map_sum id (\<lambda>(w', st', out). (w', st'\<lparr>lineBuffer := x\<rparr>, out)) (processLine rt e w st l)"
  by (cases "processEvent rt e w st (currentEventType st) (currentData st)")
     (auto simp: processLine_def processEvent_lineBuffer Let_def split: option.splits)

lemma processLines_lineBuffer:
  "processLines rt e w (st\<lparr>lineBuffer := x\<rparr>) ls
     = map_sum id (\<lambda>(w', st', out). (w', st'\<lparr>lineBuffer := x\<rparr>, out)) (processLines rt e w st ls)"
proof (induction ls arbitrary: w st)
  case Nil
  then show ?case by simp
next
  case (Cons l ls)
  show ?case
    by (cases "processLine rt e w st l")
       (auto simp: processLine_lineBuffer Cons.IH split: sum.splits)
qed

lemma processLines_keeps_lineBuffer:
  assumes "processLines rt e w st ls = Inr (w1, st1, out1)"
  shows "lineBuffer st1 = lineBuffer st"
proof -
  have "processLines rt e w (st\<lparr>lineBuffer := lineBuffer st\<rparr>) ls
      = map_sum id (\<lambda>(w', st', out). (w', st'\<lparr>lineBuffer := lineBuffer st\<rparr>, out))
          (processLines rt e w st ls)"
    by (rule processLines_lineBuffer)
  then have "st1 = st1\<lparr>lineBuffer := lineBuffer st\<rparr>" using assms by simp
  then have "lineBuffer st1 = lineBuffer (st1\<lparr>lineBuffer := lineBuffer st\<rparr>)"
    by (rule arg_cong)
  then show ?thesis by simp
qed

lemma splitLines_nonempty: "splitLines s \<noteq> []"
  by (induction s) (auto split: list.splits)

lemma last_splitLines_no_nl: "CHR 0x0A \<notin> set (last (splitLines s))"
  by (induction s) (auto simp: splitLines_nonempty split: list.splits)

lemma splitLines_no_nl: "CHR 0x0A \<notin> set x \<Longrightarrow> splitLines (x @ b) = (x @ hd (splitLines b)) # tl (splitLines b)"
  using splitLines_nonempty[of b]
  by (induction x) (auto split: list.splits)

lemma splitLines_append:
  "splitLines (a @ b) = butlast (splitLines a) @ splitLines (last (splitLines a) @ b)"
proof (induction a)
  case Nil
  then show ?case by simp
next
  case (Cons c a)
  show ?case
  proof (cases "c = CHR 0x0A")
    case True
    then show ?thesis using Cons splitLines_nonempty[of a] by simp
  next
    case False
    obtain l ls where s: "splitLines a = l # ls" using splitLines_nonempty[of a] by (cases "splitLines a") auto
    show ?thesis
    proof (cases ls)
      case Nil
      then have "CHR 0x0A \<notin> set l" using last_splitLines_no_nl[of a] s by simp
      then show ?thesis using Cons s Nil False splitLines_no_nl[of "c # l" b] splitLines_no_nl[of l b]
        by (auto split: list.splits)
    next
      case (Cons l2 ls2)
      then show ?thesis using Cons.IH s False splitLines_nonempty[of "last (splitLines a) @ b"]
        by (auto split: list.splits)
    qed
  qed
qed

lemma transform_append:
  "transform rt e w st (a @ b) =
     (case transform rt e w st a of
        Inl thrown \<Rightarrow> Inl thrown
      | Inr (w1, st1, out1) \<Rightarrow>
          (case transform rt e w1 st1 b of
             Inl (ex, out2) \<Rightarrow> Inl (ex, out1 @ out2)
           | Inr (w2, st2, out2) \<Rightarrow> Inr (w2, st2, out1 @ out2)))"
proof -
  define la where "la = splitLines (lineBuffer st @ a)"
  define lb where "lb = splitLines (last la @ b)"
  have sp: "splitLines (lineBuffer st @ a @ b) = butlast la @ lb"
    using splitLines_append[of "lineBuffer st @ a" b] by (simp add: la_def lb_def)
  have ne: "lb \<noteq> []" by (simp add: lb_def splitLines_nonempty)
  have bl: "butlast (butlast la @ lb) = butlast la @ butlast lb" "last (butlast la @ lb) = last lb"
    using ne by (simp_all add: butlast_append)
  have lhs: "transform rt e w st (a @ b)
      = processLines rt e w (st\<lparr>lineBuffer := last lb\<rparr>) (butlast la @ butlast lb)"
    by (simp add: transform_def Let_def sp bl)
  have first: "transform rt e w st a = processLines rt e w (st\<lparr>lineBuffer := last la\<rparr>) (butlast la)"
    by (simp add: transform_def Let_def la_def)
  have pl: "processLines rt e w (st\<lparr>lineBuffer := last lb\<rparr>) (butlast la)
      = map_sum id (\<lambda>(w', st', out). (w', st'\<lparr>lineBuffer := last lb\<rparr>, out))
          (processLines rt e w (st\<lparr>lineBuffer := last la\<rparr>) (butlast la))"
    using processLines_lineBuffer[where st = "st\<lparr>lineBuffer := last la\<rparr>" and x = "last lb"
        and ls = "butlast la" and rt = rt and e = e and w = w]
    by simp
  show ?thesis
  proof (cases "processLines rt e w (st\<lparr>lineBuffer := last la\<rparr>) (butlast la)")
    case (Inl ex)
    then show ?thesis unfolding lhs first processLines_append pl by simp
  next
    case (Inr r)
    obtain w1 st1 out1 where r: "r = (w1, st1, out1)" by (cases r)
    have lb1: "lineBuffer st1 = last la"
      using processLines_keeps_lineBuffer[OF Inr[unfolded r]] by simp
    have second: "transform rt e w1 st1 b
        = processLines rt e w1 (st1\<lparr>lineBuffer := last lb\<rparr>) (butlast lb)"
      by (simp add: transform_def Let_def lb1 lb_def)
    show ?thesis unfolding lhs first processLines_append pl Inr r by (simp add: second)
  qed
qed

lemma transform_obs:
  "map_sum id snd (transform rt e w st c) = map_sum id snd (transform rt e' w' st c)"
  unfolding transform_def Let_def by (rule processLines_obs)

lemma transform_lineBuffer_no_nl:
  assumes "transform rt e w st c = Inr (w1, st1, out1)"
  shows "CHR 0x0A \<notin> set (lineBuffer st1)"
proof -
  have "lineBuffer st1 = last (splitLines (lineBuffer st @ c))"
    using processLines_keeps_lineBuffer[OF assms[unfolded transform_def Let_def]] by simp
  then show ?thesis by (simp add: last_splitLines_no_nl)
qed

lemma transform_empty:
  assumes "CHR 0x0A \<notin> set (lineBuffer st)"
  shows "transform rt e w st [] = Inr (w, st, [])"
  using assms splitLines_no_nl[of "lineBuffer st" "[]"] by (simp add: transform_def)

lemma transformAll_obs:
  assumes "CHR 0x0A \<notin> set (lineBuffer st)"
  shows "map_sum id snd (transformAll rt w st chunks)
       = map_sum id snd (transform rt e w' st (concat (map snd chunks)))"
  using assms
proof (induction chunks arbitrary: w w' st)
  case Nil
  then show ?case by (simp add: transform_empty)
next
  case (Cons ec chunks)
  obtain e1 c where ec: "ec = (e1, c)" by (cases ec)
  from obs_cases[OF transform_obs[of rt e1 w st c e w']] show ?case
  proof (elim disjE exE conjE)
    fix ex assume "transform rt e1 w st c = Inl ex" "transform rt e w' st c = Inl ex"
    then show ?thesis by (simp add: ec transform_append)
  next
    fix w1 w1' st1 out1
    assume a: "transform rt e1 w st c = Inr (w1, st1, out1)"
              "transform rt e w' st c = Inr (w1', st1, out1)"
    have nl: "CHR 0x0A \<notin> set (lineBuffer st1)" by (rule transform_lineBuffer_no_nl[OF a(1)])
    from obs_cases[OF Cons.IH[OF nl, of w1 w1']] show ?thesis
      using a by (auto simp: ec transform_append)
  qed
qed

lemma emitRemaining_out:
  "snd (emitRemaining rt e w blocks) = snd (emitRemaining rt e' w' blocks)"
proof (induction blocks arbitrary: w w')
  case Nil
  then show ?case by simp
next
  case (Cons ib blocks)
  obtain i b where ib: "ib = (i, b)" by (cases ib)
  show ?case
    using emitBufferedBlock_out[of rt e w b i e' w']
      Cons.IH[of "fst (emitBufferedBlock rt e w b i)" "fst (emitBufferedBlock rt e' w' b i)"]
    by (simp add: ib case_prod_beta)
qed

lemma flush_obs:
  "map_sum id snd (flush rt e w st) = map_sum id snd (flush rt e' w' st)"
proof (cases "trim (lineBuffer st) \<noteq> []")
  case False
  then show ?thesis
    using emitRemaining_out[of rt e w "trackedBlocks st" e' w']
    by (simp add: flush_def case_prod_beta)
next
  case True
  from obs_cases[OF processLines_obs[of rt e w st "splitLines (lineBuffer st)" e' w']]
  show ?thesis
  proof (elim disjE exE conjE)
    fix ex assume "processLines rt e w st (splitLines (lineBuffer st)) = Inl ex"
      "processLines rt e' w' st (splitLines (lineBuffer st)) = Inl ex"
    then show ?thesis using True by (simp add: flush_def)
  next
    fix w1 w1' st1 out1
    assume a: "processLines rt e w st (splitLines (lineBuffer st)) = Inr (w1, st1, out1)"
      "processLines rt e' w' st (splitLines (lineBuffer st)) = Inr (w1', st1, out1)"
    show ?thesis
    proof (cases "currentEventType st1 \<noteq> [] \<and> currentData st1 \<noteq> []")
      case False
      then show ?thesis
        using True a emitRemaining_out[of rt e w1 "trackedBlocks st1" e' w1']
        by (auto simp: flush_def case_prod_beta)
    next
      case ev: True
      from obs_cases[OF processEvent_obs[of rt e w1 st1 "currentEventType st1" "currentData st1" e' w1']]
      show ?thesis
      proof (elim disjE exE conjE)
        fix ex assume "processEvent rt e w1 st1 (currentEventType st1) (currentData st1) = Inl ex"
          "processEvent rt e' w1' st1 (currentEventType st1) (currentData st1) = Inl ex"
        then show ?thesis using True a ev by (simp add: flush_def)
      next
        fix w2 w2' st2 out2
        assume b: "processEvent rt e w1 st1 (currentEventType st1) (currentData st1) = Inr (w2, st2, out2)"
          "processEvent rt e' w1' st1 (currentEventType st1) (currentData st1) = Inr (w2', st2, out2)"
        show ?thesis
          using True a ev b emitRemaining_out[of rt e w2 "trackedBlocks st2" e' w2']
          by (simp add: flush_def case_prod_beta)
      qed
    qed
  qed
qed

lemma pipeThrough_single:
  "map_sum id snd (pipeThrough rt w chunks ef)
     = map_sum id snd (pipeThrough rt w' [(e, concat (map snd chunks))] ef')"
proof -
  have nl: "CHR 0x0A \<notin> set (lineBuffer initialState)" by (simp add: initialState_def)
  have t1: "transformAll rt w' initialState [(e, concat (map snd chunks))]
        = transform rt e w' initialState (concat (map snd chunks))"
    by (cases "transform rt e w' initialState (concat (map snd chunks))") auto
  from obs_cases[OF transformAll_obs[OF nl, of rt w chunks e w']] show ?thesis
  proof (elim disjE exE conjE)
    fix ex assume "transformAll rt w initialState chunks = Inl ex"
      "transform rt e w' initialState (concat (map snd chunks)) = Inl ex"
    then show ?thesis unfolding pipeThrough_def t1 by simp
  next
    fix w1 w1' st1 out1
    assume a: "transformAll rt w initialState chunks = Inr (w1, st1, out1)"
      "transform rt e w' initialState (concat (map snd chunks)) = Inr (w1', st1, out1)"
    from obs_cases[OF flush_obs[of rt ef w1 st1 ef' w1']] show ?thesis
      unfolding pipeThrough_def t1 using a by auto
  qed
qed

text \<open>
  \<^bold>\<open>C2.\<close> Feeding the stripping stream a byte sequence one byte per chunk and feeding it
  the same bytes as a single chunk give the same output: the same list of enqueued chunks,
  and, when an event makes the transform throw, the same exception after the same chunks.
  This holds for every input, every \<open>JSON.parse\<close> and \<open>JSON.stringify\<close>, whatever the store
  holds, and whatever the clock and the disk do during each call.
\<close>

theorem C2_chunk_invariance:
  "map_sum id snd (pipeThrough rt w (map (\<lambda>eb. (fst eb, [snd eb])) timedBytes) ef)
     = map_sum id snd (pipeThrough rt w' [(e, map snd timedBytes)] ef')"
proof -
  have "concat (map snd (map (\<lambda>eb. (fst eb, [snd eb])) timedBytes)) = map snd timedBytes"
    by (induction timedBytes) auto
  then show ?thesis
    using pipeThrough_single[of rt w "map (\<lambda>eb. (fst eb, [snd eb])) timedBytes" ef w' e ef'] by simp
qed

text \<open>The round-trip stream of C1, byte by byte and at once.\<close>

theorem C2_witness:
  "map_sum id snd (pipeThrough jsRuntime world0
       (map (\<lambda>eb. (fst eb, [snd eb])) (map (\<lambda>b. (env0, b)) roundTripStream)) env0)
     = map_sum id snd (pipeThrough jsRuntime world0 [(env0, roundTripStream)] env0)"
  using C2_chunk_invariance[of jsRuntime world0 "map (\<lambda>b. (env0, b)) roundTripStream" env0 world0 env0 env0]
  by (simp add: comp_def)

section \<open>Canonical streams are processed event by event\<close>



lemma dropLeading_None: "leadingOf seqs s = None \<Longrightarrow> dropLeading seqs s = s"
  by (simp add: dropLeading.simps)

lemma dropLeading_Nil: "dropLeading seqs [] = []"
proof -
  have "leadingOf seqs [] = None" by (simp add: leadingOf_def find_None_iff)
  then show ?thesis by (rule dropLeading_None)
qed

lemma trim_Nil: "trim [] = []"
  by (simp add: trim_def dropLeading_Nil)































section \<open>The round trip and the empty buffer\<close>


text \<open>
  \<^bold>\<open>C10.\<close> For a tracked block whose buffer is empty, \<open>emitBufferedBlock\<close> emits nothing and
  leaves the store alone. So at \<open>content_block_stop\<close> the only chunk enqueued is the stop event
  itself, and a flush that finds the block still tracked enqueues nothing for it.
\<close>

theorem C10_empty_buffer:
  assumes "bufferedJson block = []"
  shows "emitBufferedBlock rt e w block index = (w, [])
       \<and> (\<forall>st dataStr data.
            JSON_parse rt dataStr = Some data \<and> getProp data ''index'' = Inr index
            \<and> Map_get (trackedBlocks st) index = Some block \<longrightarrow>
            processEvent rt e w st ''content_block_stop'' dataStr
              = Inr (w, st\<lparr>eventCount := Suc (eventCount st),
                            trackedBlocks := Map_delete (trackedBlocks st) index\<rparr>,
                     [emitSseEvent ''content_block_stop'' dataStr]))
       \<and> (\<forall>st. lineBuffer st = [] \<and> trackedBlocks st = [(index, block)] \<longrightarrow>
            flush rt e w st = Inr (w, st\<lparr>trackedBlocks := [], lineBuffer := []\<rparr>, []))"
  using assms by (auto simp: emitBufferedBlock_def processEvent_def flush_def trim_Nil)

lemma emptyTool_run:
  "pipeThrough jsRuntime w [(e, emptyToolStream)] ef = Inr (w, [wire toolStart, wire toolStop])"
  by code_simp

text \<open>A tool-use block that is started and stopped with no delta in between: the output is
  the two events, with no synthetic delta, and the store is untouched.\<close>

theorem C10_witness:
  "bufferedJson emptyBlock = []
   \<and> emitBufferedBlock jsRuntime env0 world0 emptyBlock (Some (JNum 0)) = (world0, [])
   \<and> pipeThrough jsRuntime world0 [(env0, emptyToolStream)] env0
       = Inr (world0, [wire toolStart, wire toolStop])"
proof -
  have b: "bufferedJson emptyBlock = []" by (simp add: emptyBlock_def)
  from C10_empty_buffer[OF b, of jsRuntime env0 world0 "Some (JNum 0)"] b emptyTool_run[of world0 env0 env0]
  show ?thesis by blast
qed

section \<open>The OAuth callback server\<close>








text \<open>
  \<^bold>\<open>C4\<close>, as stated, fails in its order. The handler tests the \<open>error\<close> parameter first, the
  state second and the code last: a callback with a forged state that also carries an error
  is rejected as an OAuth error, not as a state mismatch.
\<close>

theorem C4_counterexample:
  "pathname forgedCallback = CALLBACK_PATH
   \<and> state forgedCallback \<noteq> Some ''expected''
   \<and> outcome (handleCallback ''expected'' forgedCallback) = Reject ''OAuth error: access_denied''
   \<and> outcome (handleCallback ''expected'' forgedCallback) \<noteq> Reject ''OAuth state mismatch''"
  by (simp add: handleCallback_def forgedCallback_def CALLBACK_PATH_def)

text \<open>
  \<^bold>\<open>C4, amended.\<close> On the callback path the handler rejects on an explicit error
  parameter, on a state mismatch, or on a missing code, in that order of priority: an error
  parameter wins over a state mismatch, which wins over a missing code; otherwise it resolves
  with the code. The three rejections carry three different messages.
\<close>

theorem C4_callback_priority:
  assumes "pathname req = CALLBACK_PATH"
  shows "(\<forall>err. error req = Some err \<and> err \<noteq> [] \<longrightarrow>
            outcome (handleCallback expectedState req) = Reject (''OAuth error: '' @ err))
       \<and> (\<not> truthyStr (error req) \<and> state req \<noteq> Some expectedState \<longrightarrow>
            outcome (handleCallback expectedState req) = Reject ''OAuth state mismatch'')
       \<and> (\<not> truthyStr (error req) \<and> state req = Some expectedState \<and> \<not> truthyStr (code req) \<longrightarrow>
            outcome (handleCallback expectedState req) = Reject ''No authorization code'')
       \<and> (\<forall>c. \<not> truthyStr (error req) \<and> state req = Some expectedState \<and> code req = Some c \<and> c \<noteq> [] \<longrightarrow>
            outcome (handleCallback expectedState req) = Resolve c)
       \<and> (\<forall>err. ''OAuth error: '' @ err \<noteq> ''OAuth state mismatch''
              \<and> ''OAuth error: '' @ err \<noteq> ''No authorization code'')
       \<and> ''OAuth state mismatch'' \<noteq> ''No authorization code''"
  using assms by (auto simp: handleCallback_def)

text \<open>The forged callback with its error parameter, without it, and with neither error nor
  code against the state it carries.\<close>

theorem C4_witness:
  "outcome (handleCallback ''expected'' forgedCallback) = Reject ''OAuth error: access_denied''
   \<and> outcome (handleCallback ''expected'' (forgedCallback\<lparr>error := None\<rparr>)) = Reject ''OAuth state mismatch''
   \<and> outcome (handleCallback ''forged'' (forgedCallback\<lparr>error := None, code := None\<rparr>))
       = Reject ''No authorization code''
   \<and> outcome (handleCallback ''forged'' (forgedCallback\<lparr>error := None\<rparr>)) = Resolve ''abc''"
proof -
  have p: "pathname (forgedCallback\<lparr>error := x, code := y\<rparr>) = CALLBACK_PATH" for x y
    by (simp add: forgedCallback_def CALLBACK_PATH_def)
  have q: "pathname (forgedCallback\<lparr>error := x\<rparr>) = CALLBACK_PATH" for x
    by (simp add: forgedCallback_def CALLBACK_PATH_def)
  have r: "pathname forgedCallback = CALLBACK_PATH"
    by (simp add: forgedCallback_def CALLBACK_PATH_def)
  from C4_callback_priority[OF r, of "''expected''"]
    C4_callback_priority[OF q, of None "''expected''"]
    C4_callback_priority[OF p, of None None "''forged''"]
    C4_callback_priority[OF q, of None "''forged''"]
  show ?thesis by (simp add: forgedCallback_def)
qed

end
